theory Spec2Isabelle
  imports Complex_Main
begin

section \<open>The 6D manifold core: points, metric, agents\<close>

text \<open>
  A shallow embedding of \<^verbatim>\<open>src/manifold/crsm_6d.py\<close> and
  \<^verbatim>\<open>src/agents/geodesic_agent.py\<close>. Python floats are modelled by the reals,
  numpy vectors by lists of reals, numpy matrices by lists of rows. Every exception the
  source can raise is a value of \<open>error\<close>. Two questions are decided by float64
  itself and are not put to the reals: whether the inversion of the metric can fail (there
  the entries of the metric are rounded as IEEE 754 prescribes), and what the transport
  distance returns (there the float operations are a parameter).
\<close>

subsection \<open>Constants\<close>

definition LAMBDA_PHI :: real where "LAMBDA_PHI = 2176435 / 10 ^ 14"
definition PHI_THRESHOLD :: real where "PHI_THRESHOLD = 76901 / 10000"
definition GAMMA_FIXED :: real where "GAMMA_FIXED = 92 / 1000"
definition CHI_PC :: real where "CHI_PC = 869 / 1000"

subsection \<open>Errors\<close>

text \<open>The Python exceptions that the modelled code can raise.\<close>

datatype error =
  IndexError | LinAlgError | ZeroDivisionError | UnboundLocalError | ValueError

definition bind_res :: "error + 'a \<Rightarrow> ('a \<Rightarrow> error + 'b) \<Rightarrow> error + 'b" where
  "bind_res r f = (case r of Inl e \<Rightarrow> Inl e | Inr x \<Rightarrow> f x)"

subsection \<open>ManifoldPoint\<close>

record ManifoldPoint =
  Lambda :: real
  Phi :: real
  Gamma :: real
  tau :: real
  epsilon :: real
  psi :: real

text \<open>\<^verbatim>\<open>np.clip(a, a_min, a_max)\<close> is \<^verbatim>\<open>minimum(a_max, maximum(a, a_min))\<close>.\<close>

definition clip :: "real \<Rightarrow> real \<Rightarrow> real \<Rightarrow> real" where
  "clip a a_min a_max = min a_max (max a a_min)"

text \<open>\<^verbatim>\<open>__post_init__\<close>: five fields are clamped, \<open>tau\<close> is not touched.\<close>

definition post_init :: "ManifoldPoint \<Rightarrow> ManifoldPoint" where
  "post_init p =
     p\<lparr>Lambda := clip (Lambda p) 0 1,
       Phi := clip (Phi p) 0 1,
       Gamma := clip (Gamma p) (1 / 1000) 1,
       epsilon := clip (epsilon p) 0 1,
       psi := clip (psi p) 0 1\<rparr>"

text \<open>The dataclass constructor: field assignment followed by \<^verbatim>\<open>__post_init__\<close>.\<close>

definition make_point :: "real \<Rightarrow> real \<Rightarrow> real \<Rightarrow> real \<Rightarrow> real \<Rightarrow> real \<Rightarrow> ManifoldPoint" where
  "make_point l p g t e s =
     post_init \<lparr>Lambda = l, Phi = p, Gamma = g, tau = t, epsilon = e, psi = s\<rparr>"

definition to_vector :: "ManifoldPoint \<Rightarrow> real list" where
  "to_vector p = [Lambda p, Phi p, Gamma p, tau p, epsilon p, psi p]"

text \<open>\<^verbatim>\<open>from_vector\<close> reads \<^verbatim>\<open>v[0] .. v[5]\<close>; a shorter vector raises IndexError.\<close>

definition from_vector :: "real list \<Rightarrow> error + ManifoldPoint" where
  "from_vector v =
     (if length v < 6 then Inl IndexError
      else Inr (make_point (v ! 0) (v ! 1) (v ! 2) (v ! 3) (v ! 4) (v ! 5)))"

definition xi :: "ManifoldPoint \<Rightarrow> real" where
  "xi p = (Lambda p * Phi p) / Gamma p"

definition is_coherent :: "ManifoldPoint \<Rightarrow> bool" where
  "is_coherent p = (xi p \<ge> PHI_THRESHOLD)"

definition needs_healing :: "ManifoldPoint \<Rightarrow> bool" where
  "needs_healing p = (Gamma p > 3 / 10)"

text \<open>The domain the constructor enforces (it says nothing about \<open>tau\<close>).\<close>

definition in_domain :: "ManifoldPoint \<Rightarrow> bool" where
  "in_domain p =
     (0 \<le> Lambda p \<and> Lambda p \<le> 1 \<and> 0 \<le> Phi p \<and> Phi p \<le> 1 \<and>
      1 / 1000 \<le> Gamma p \<and> Gamma p \<le> 1 \<and>
      0 \<le> epsilon p \<and> epsilon p \<le> 1 \<and> 0 \<le> psi p \<and> psi p \<le> 1)"

subsection \<open>Vectors and matrices\<close>

definition vadd :: "real list \<Rightarrow> real list \<Rightarrow> real list" where
  "vadd a b = map2 (+) a b"

definition vsub :: "real list \<Rightarrow> real list \<Rightarrow> real list" where
  "vsub a b = map2 (-) a b"

definition vscale :: "real \<Rightarrow> real list \<Rightarrow> real list" where
  "vscale c a = map (\<lambda>x. c * x) a"

definition dot :: "real list \<Rightarrow> real list \<Rightarrow> real" where
  "dot a b = sum_list (map2 (*) a b)"

text \<open>\<^verbatim>\<open>x @ m\<close> for a vector \<open>x\<close> and a matrix \<open>m\<close>: entry \<open>j\<close> is \<open>\<Sum>i. x[i] * m[i][j]\<close>.\<close>

definition vecmat :: "real list \<Rightarrow> real list list \<Rightarrow> real list" where
  "vecmat x m = map (\<lambda>j. sum_list (map2 (\<lambda>xi row. xi * row ! j) x m)) [0..<length x]"

definition eye :: "nat \<Rightarrow> real list list" where
  "eye n = map (\<lambda>i. map (\<lambda>j. if i = j then 1 else 0) [0..<n]) [0..<n]"

text \<open>\<^verbatim>\<open>m[i, j] = v\<close> on an array.\<close>

definition mset2 :: "real list list \<Rightarrow> nat \<Rightarrow> nat \<Rightarrow> real \<Rightarrow> real list list" where
  "mset2 m i j v = m[i := (m ! i)[j := v]]"

definition norm2 :: "real list \<Rightarrow> real" where
  "norm2 a = sqrt (sum_list (map (\<lambda>x. x * x) a))"

subsection \<open>MetricTensor\<close>

definition lambda_phi_coupling :: real where "lambda_phi_coupling = LAMBDA_PHI * 10 ^ 8"
definition gamma_psi_coupling :: real where "gamma_psi_coupling = GAMMA_FIXED"
definition epsilon_lambda_coupling :: real where "epsilon_lambda_coupling = CHI_PC"

text \<open>\<^verbatim>\<open>MetricTensor.g\<close>: the identity, then the assignments in source order.\<close>

definition metric_g :: "ManifoldPoint \<Rightarrow> real list list" where
  "metric_g point =
     (let g0 = eye 6;
          a = - lambda_phi_coupling * Lambda point * Phi point;
          g1 = mset2 (mset2 g0 1 0 a) 0 1 a;
          b = gamma_psi_coupling * psi point;
          g2 = mset2 (mset2 g1 5 2 b) 2 5 b;
          c = - epsilon_lambda_coupling * epsilon point;
          g3 = mset2 (mset2 g2 0 4 c) 4 0 c;
          g4 = mset2 g3 3 3 (1 / (1 + Lambda point));
          g5 = mset2 g4 2 2 (1 + Gamma point * 10)
      in g5)"

text \<open>\<^verbatim>\<open>distance_squared\<close>: the metric at the midpoint, contracted with \<open>dx\<close>.\<close>

definition distance_squared :: "ManifoldPoint \<Rightarrow> ManifoldPoint \<Rightarrow> error + real" where
  "distance_squared p1 p2 =
     (let dx = vsub (to_vector p2) (to_vector p1)
      in bind_res (from_vector (map (\<lambda>x. x / 2) (vadd (to_vector p1) (to_vector p2))))
           (\<lambda>midpoint. Inr (dot (vecmat dx (metric_g midpoint)) dx)))"

definition distance :: "ManifoldPoint \<Rightarrow> ManifoldPoint \<Rightarrow> error + real" where
  "distance p1 p2 = bind_res (distance_squared p1 p2) (\<lambda>ds2. Inr (sqrt (max 0 ds2)))"

subsection \<open>Matrix inverse\<close>

text \<open>
  \<^verbatim>\<open>np.linalg.inv\<close> is a library routine; in exact arithmetic it returns the unique
  inverse of a non-singular matrix and raises LinAlgError on a singular one. It is
  modelled by the determinant (expansion along the first row) and the adjugate.
\<close>

definition del_at :: "nat \<Rightarrow> 'a list \<Rightarrow> 'a list" where
  "del_at j xs = take j xs @ drop (Suc j) xs"

fun det :: "real list list \<Rightarrow> real" where
  "det [] = 1"
| "det (r # rs) =
     sum_list (map (\<lambda>j. (- 1) ^ j * (r ! j) * det (map (del_at j) rs)) [0..<length r])"

definition cofactor :: "real list list \<Rightarrow> nat \<Rightarrow> nat \<Rightarrow> real" where
  "cofactor m i j = (- 1) ^ (i + j) * det (map (del_at j) (del_at i m))"

definition np_inv :: "real list list \<Rightarrow> error + real list list" where
  "np_inv m =
     (let d = det m; n = length m
      in if d = 0 then Inl LinAlgError
         else Inr (map (\<lambda>i. map (\<lambda>j. cofactor m j i / d) [0..<n]) [0..<n]))"

text \<open>
  A product that is not looked at when its first factor is zero; it equals the product and
  only serves to evaluate determinants of sparse matrices.
\<close>

definition mult_skip :: "real \<Rightarrow> real \<Rightarrow> real" where
  "mult_skip x y = (if x = 0 then 0 else x * y)"

definition g_inverse :: "ManifoldPoint \<Rightarrow> error + real list list" where
  "g_inverse point = np_inv (metric_g point)"

text \<open>
  The points at which the metric has determinant zero (see \<open>g_inverse_singular\<close> and
  \<open>g_inverse_regular\<close> below).
\<close>

definition metric_singular :: "ManifoldPoint \<Rightarrow> bool" where
  "metric_singular p =
     ((lambda_phi_coupling * Lambda p * Phi p) ^ 2 + (epsilon_lambda_coupling * epsilon p) ^ 2 = 1)"

subsection \<open>The metric as float64 computes it\<close>

text \<open>
  Over the reals the metric is singular at no point whose coordinates are doubles, so
  whether \<^verbatim>\<open>np.linalg.inv\<close> fails on it is decided by rounding. \<open>binary64\<close> is the
  rounding of IEEE 754 double precision: to the nearest number with 53 significant bits,
  ties to the even significand, with gradual underflow below \<open>2\<^sup>-\<^sup>1\<^sup>0\<^sup>2\<^sup>2\<close>. Overflow is not
  modelled: the entries of the metric are below 4 in absolute value.
\<close>

definition round_half_even :: "real \<Rightarrow> int" where
  "round_half_even q =
     (let f = \<lfloor>q\<rfloor>
      in if q - of_int f < 1 / 2 then f
         else if 1 / 2 < q - of_int f then f + 1
         else if even f then f else f + 1)"

definition binary64 :: "real \<Rightarrow> real" where
  "binary64 x =
     (if x = 0 then 0
      else let e = max (\<lfloor>log 2 \<bar>x\<bar>\<rfloor> - 52) (- 1074)
           in of_int (round_half_even (x / 2 powr of_int e)) * 2 powr of_int e)"

text \<open>
  \<^verbatim>\<open>MetricTensor.g\<close> once more, with each arithmetic operation of the source followed by
  a rounding \<open>r\<close>, also for the constants, which the source writes as decimal literals.
  With \<open>r\<close> the identity this is \<open>metric_g\<close> (\<open>metric_g_rd_exact\<close> below); with
  \<open>r = binary64\<close> the entries are the doubles that numpy computes.
  \<^verbatim>\<open>-self.lambda_phi_coupling * point.Lambda * point.Phi\<close> multiplies from the left.
\<close>

definition lambda_phi_coupling_rd :: "(real \<Rightarrow> real) \<Rightarrow> real" where
  "lambda_phi_coupling_rd r = r (r LAMBDA_PHI * 10 ^ 8)"

definition metric_g_rd :: "(real \<Rightarrow> real) \<Rightarrow> ManifoldPoint \<Rightarrow> real list list" where
  "metric_g_rd r point =
     (let g0 = eye 6;
          a = r (r (- lambda_phi_coupling_rd r * Lambda point) * Phi point);
          g1 = mset2 (mset2 g0 1 0 a) 0 1 a;
          b = r (r GAMMA_FIXED * psi point);
          g2 = mset2 (mset2 g1 5 2 b) 2 5 b;
          c = r (- r CHI_PC * epsilon point);
          g3 = mset2 (mset2 g2 0 4 c) 4 0 c;
          g4 = mset2 g3 3 3 (r (1 / r (1 + Lambda point)));
          g5 = mset2 g4 2 2 (r (1 + r (Gamma point * 10)))
      in g5)"

text \<open>
  \<^verbatim>\<open>np.linalg.inv\<close> on a matrix of doubles. On a matrix that is exactly singular it
  raises LinAlgError (for the matrices that \<open>g\<close> computes this is the case in which the
  factorisation meets a zero pivot without any rounding, see \<open>g_inverse_rd_singular\<close>
  below). On any other matrix the outcome depends on the rounding inside the library: an
  approximate inverse, or LinAlgError again when a pivot rounds to zero. That outcome is the
  parameter \<open>lib\<close>, and nothing is assumed of it; with \<open>lib = np_inv\<close> it is the exact
  inverse.
\<close>

definition np_linalg_inv ::
  "(real list list \<Rightarrow> error + real list list) \<Rightarrow> real list list \<Rightarrow> error + real list list" where
  "np_linalg_inv lib m = (if det m = 0 then Inl LinAlgError else lib m)"

text \<open>\<^verbatim>\<open>g_inverse\<close> on the computed matrix: the call of the library and nothing else.\<close>

definition g_inverse_rd ::
  "(real \<Rightarrow> real) \<Rightarrow> (real list list \<Rightarrow> error + real list list) \<Rightarrow> ManifoldPoint \<Rightarrow>
     error + real list list" where
  "g_inverse_rd r lib point = np_linalg_inv lib (metric_g_rd r point)"

subsection \<open>ChristoffelSymbols\<close>

fun sequence_res :: "(error + 'a) list \<Rightarrow> error + 'a list" where
  "sequence_res [] = Inr []"
| "sequence_res (r # rs) =
     bind_res r (\<lambda>x. bind_res (sequence_res rs) (\<lambda>xs. Inr (x # xs)))"

definition christoffel_epsilon :: real where "christoffel_epsilon = 1 / 10 ^ 6"

definition mat_sub :: "real list list \<Rightarrow> real list list \<Rightarrow> real list list" where
  "mat_sub a b = map2 vsub a b"

definition mat_scale :: "real \<Rightarrow> real list list \<Rightarrow> real list list" where
  "mat_scale c a = map (vscale c) a"

text \<open>
  A central difference of a field \<open>f\<close> of matrices along axis \<open>rho\<close> with step \<open>h\<close>:
  both shifted vectors go through \<^verbatim>\<open>ManifoldPoint.from_vector\<close>, so they are clamped.
\<close>

definition metric_derivative :: "real list \<Rightarrow> nat \<Rightarrow> error + real list list" where
  "metric_derivative base_vec rho =
     (let vec_plus = base_vec[rho := base_vec ! rho + christoffel_epsilon];
          vec_minus = base_vec[rho := base_vec ! rho - christoffel_epsilon]
      in bind_res (from_vector vec_plus) (\<lambda>p_plus.
         bind_res (from_vector vec_minus) (\<lambda>p_minus.
           Inr (mat_scale (1 / (2 * christoffel_epsilon))
                  (mat_sub (metric_g p_plus) (metric_g p_minus))))))"

text \<open>\<^verbatim>\<open>ChristoffelSymbols.compute\<close>; the result is indexed \<open>[sigma][mu][nu]\<close>.\<close>

definition compute :: "ManifoldPoint \<Rightarrow> error + real list list list" where
  "compute point =
     bind_res (g_inverse point) (\<lambda>g_inv.
     bind_res (sequence_res (map (metric_derivative (to_vector point)) [0..<6])) (\<lambda>dg.
       Inr (map (\<lambda>sigma. map (\<lambda>mu. map (\<lambda>nu.
              sum_list (map (\<lambda>rho.
                (1 / 2) * (g_inv ! sigma ! rho) *
                  (dg ! mu ! nu ! rho + dg ! nu ! mu ! rho - dg ! rho ! mu ! nu)) [0..<6]))
            [0..<6]) [0..<6]) [0..<6])))"

subsection \<open>GeodesicSolver\<close>

definition geodesic_acceleration :: "real list \<Rightarrow> real list \<Rightarrow> error + real list" where
  "geodesic_acceleration pos velocity =
     bind_res (from_vector pos) (\<lambda>point.
     bind_res (compute point) (\<lambda>gamma.
       Inr (map (\<lambda>mu. 0 - sum_list (map (\<lambda>nu. sum_list (map (\<lambda>sigma.
              gamma ! mu ! nu ! sigma * (velocity ! nu) * (velocity ! sigma)) [0..<6])) [0..<6]))
            [0..<6])))"

text \<open>
  The clamp after each sub-step: \<^verbatim>\<open>x[0:3] = np.clip(x[0:3], 0.001, 1.0)\<close> and
  \<^verbatim>\<open>x[4:6] = np.clip(x[4:6], 0.0, 1.0)\<close>; entry 3 is left alone.
\<close>

definition clamp_state :: "real list \<Rightarrow> real list" where
  "clamp_state x =
     map (\<lambda>a. clip a (1 / 1000) 1) (take 3 x) @ take 1 (drop 3 x) @
     map (\<lambda>a. clip a 0 1) (take 2 (drop 4 x)) @ drop 6 x"

text \<open>One pass of the body of the loop of \<^verbatim>\<open>_integrate\<close>.\<close>

definition rk4_step :: "real \<Rightarrow> real list \<Rightarrow> real list \<Rightarrow> error + (real list \<times> real list)" where
  "rk4_step dt x v =
     (let k1_x = v in
      bind_res (geodesic_acceleration x v) (\<lambda>k1_v.
      let k2_x = vadd v (vscale (0.5 * dt) k1_v) in
      bind_res (geodesic_acceleration (vadd x (vscale (0.5 * dt) k1_x))
                  (vadd v (vscale (0.5 * dt) k1_v))) (\<lambda>k2_v.
      let k3_x = vadd v (vscale (0.5 * dt) k2_v) in
      bind_res (geodesic_acceleration (vadd x (vscale (0.5 * dt) k2_x))
                  (vadd v (vscale (0.5 * dt) k2_v))) (\<lambda>k3_v.
      let k4_x = vadd v (vscale dt k3_v) in
      bind_res (geodesic_acceleration (vadd x (vscale dt k3_x))
                  (vadd v (vscale dt k3_v))) (\<lambda>k4_v.
      let x' = vadd x (vscale (dt / 6)
                 (vadd (vadd (vadd k1_x (vscale 2 k2_x)) (vscale 2 k3_x)) k4_x));
          v' = vadd v (vscale (dt / 6)
                 (vadd (vadd (vadd k1_v (vscale 2 k2_v)) (vscale 2 k3_v)) k4_v))
      in Inr (clamp_state x', v'))))))"

fun integrate_loop ::
  "nat \<Rightarrow> real \<Rightarrow> real list \<Rightarrow> real list \<Rightarrow> real list list \<Rightarrow> error + real list list" where
  "integrate_loop 0 dt x v path = Inr path"
| "integrate_loop (Suc n) dt x v path =
     bind_res (rk4_step dt x v) (\<lambda>(x', v'). integrate_loop n dt x' v' (path @ [x']))"

text \<open>\<^verbatim>\<open>_integrate\<close>: \<^verbatim>\<open>range(num_steps)\<close> is empty for a negative count.\<close>

definition integrate :: "real list \<Rightarrow> real list \<Rightarrow> int \<Rightarrow> real \<Rightarrow> error + real list list" where
  "integrate x0 v0 num_steps dt = integrate_loop (nat num_steps) dt x0 v0 [x0]"

text \<open>
  The shooting loop of \<^verbatim>\<open>solve\<close>. The third argument is the number of iterations
  left, \<open>path\<close> is the variable \<^verbatim>\<open>path\<close> (unbound before the first pass). The
  boolean of the result says whether the loop was left by \<^verbatim>\<open>break\<close>; the source keeps
  no such variable.
\<close>

fun shoot ::
  "real list \<Rightarrow> real list \<Rightarrow> int \<Rightarrow> real \<Rightarrow> nat \<Rightarrow> real list \<Rightarrow> real list list option \<Rightarrow>
     error + (real list list option \<times> bool)" where
  "shoot x0 xf num_steps dt 0 v0 path = Inr (path, False)"
| "shoot x0 xf num_steps dt (Suc k) v0 path =
     bind_res (integrate x0 v0 num_steps dt) (\<lambda>path'.
       let endpoint = last path';
           err = vsub xf endpoint;
           error_norm = norm2 err
       in if error_norm < 1 / 10 ^ 4 then Inr (Some path', True)
          else shoot x0 xf num_steps dt k (vadd v0 (vscale 0.5 err)) (Some path'))"

definition solve_run ::
  "ManifoldPoint \<Rightarrow> ManifoldPoint \<Rightarrow> int \<Rightarrow> int \<Rightarrow> error + (real list list option \<times> bool)" where
  "solve_run start end num_steps max_iterations =
     (let x0 = to_vector start; xf = to_vector end; v0 = vsub xf x0
      in if num_steps = 0 then Inl ZeroDivisionError
         else shoot x0 xf num_steps (1 / real_of_int num_steps) (nat max_iterations) v0 None)"

text \<open>\<^verbatim>\<open>GeodesicSolver.solve\<close>: what the caller receives is the list of points only.\<close>

definition solve ::
  "ManifoldPoint \<Rightarrow> ManifoldPoint \<Rightarrow> int \<Rightarrow> int \<Rightarrow> error + ManifoldPoint list" where
  "solve start end num_steps max_iterations =
     bind_res (solve_run start end num_steps max_iterations) (\<lambda>(path, converged).
       case path of
         None \<Rightarrow> Inl UnboundLocalError
       | Some ps \<Rightarrow> sequence_res (map from_vector ps))"

definition find_geodesic :: "ManifoldPoint \<Rightarrow> ManifoldPoint \<Rightarrow> int \<Rightarrow> error + ManifoldPoint list" where
  "find_geodesic start end steps = solve start end steps 50"

text \<open>
  The shooting loop written as a sequence of trials, to state which path \<open>solve\<close> returns.
  Trial \<open>j\<close> integrates from \<open>trial_velocity j\<close>: the straight-line guess for \<open>j = 0\<close>, and
  the previous velocity corrected by half the endpoint error of the previous trial after
  that (\<^verbatim>\<open>v0 += 0.5 * error\<close>). \<open>trial_path j\<close> is the path of trial \<open>j\<close>, and
  \<open>trial_miss j\<close> says that trial \<open>j\<close> was integrated and ended at \<open>1e-4\<close> or more from the
  target.
\<close>

fun trial_velocity :: "real list \<Rightarrow> real list \<Rightarrow> int \<Rightarrow> real \<Rightarrow> nat \<Rightarrow> real list" where
  "trial_velocity x0 xf num_steps dt 0 = vsub xf x0"
| "trial_velocity x0 xf num_steps dt (Suc j) =
     (let v0 = trial_velocity x0 xf num_steps dt j
      in case integrate x0 v0 num_steps dt of
           Inl e \<Rightarrow> v0
         | Inr pth \<Rightarrow> vadd v0 (vscale 0.5 (vsub xf (last pth))))"

definition trial_path ::
  "real list \<Rightarrow> real list \<Rightarrow> int \<Rightarrow> real \<Rightarrow> nat \<Rightarrow> error + real list list" where
  "trial_path x0 xf num_steps dt j = integrate x0 (trial_velocity x0 xf num_steps dt j) num_steps dt"

definition trial_miss :: "real list \<Rightarrow> real list \<Rightarrow> int \<Rightarrow> real \<Rightarrow> nat \<Rightarrow> bool" where
  "trial_miss x0 xf num_steps dt j =
     (case trial_path x0 xf num_steps dt j of
        Inl e \<Rightarrow> False
      | Inr pth \<Rightarrow> \<not> norm2 (vsub xf (last pth)) < 1 / 10 ^ 4)"

subsection \<open>RiemannCurvature\<close>

definition riemann_epsilon :: real where "riemann_epsilon = 1 / 10 ^ 5"

definition christoffel_derivative :: "real list \<Rightarrow> nat \<Rightarrow> error + real list list list" where
  "christoffel_derivative base_vec mu =
     (let vec_plus = base_vec[mu := base_vec ! mu + riemann_epsilon];
          vec_minus = base_vec[mu := base_vec ! mu - riemann_epsilon]
      in bind_res (bind_res (from_vector vec_plus) compute) (\<lambda>gamma_plus.
         bind_res (bind_res (from_vector vec_minus) compute) (\<lambda>gamma_minus.
           Inr (map2 (\<lambda>a b. mat_scale (1 / (2 * riemann_epsilon)) (mat_sub a b))
                  gamma_plus gamma_minus))))"

text \<open>\<^verbatim>\<open>riemann_tensor\<close>; the result is indexed \<open>[rho][sigma][mu][nu]\<close>.\<close>

definition riemann_tensor :: "ManifoldPoint \<Rightarrow> error + real list list list list" where
  "riemann_tensor point =
     bind_res (compute point) (\<lambda>gamma.
     bind_res (sequence_res (map (christoffel_derivative (to_vector point)) [0..<6])) (\<lambda>dgamma.
       Inr (map (\<lambda>rho. map (\<lambda>sigma. map (\<lambda>mu. map (\<lambda>nu.
              (dgamma ! mu ! rho ! nu ! sigma - dgamma ! nu ! rho ! mu ! sigma) +
              sum_list (map (\<lambda>lam.
                gamma ! rho ! mu ! lam * gamma ! lam ! nu ! sigma -
                gamma ! rho ! nu ! lam * gamma ! lam ! mu ! sigma) [0..<6]))
            [0..<6]) [0..<6]) [0..<6]) [0..<6])))"

definition ricci_tensor :: "ManifoldPoint \<Rightarrow> error + real list list" where
  "ricci_tensor point =
     bind_res (riemann_tensor point) (\<lambda>R.
       Inr (map (\<lambda>mu. map (\<lambda>nu.
              sum_list (map (\<lambda>rho. R ! rho ! mu ! rho ! nu) [0..<6])) [0..<6]) [0..<6]))"

definition scalar_curvature :: "ManifoldPoint \<Rightarrow> error + real" where
  "scalar_curvature point =
     bind_res (ricci_tensor point) (\<lambda>ricci.
     bind_res (g_inverse point) (\<lambda>g_inv.
       Inr (sum_list (map (\<lambda>mu. sum_list (map (\<lambda>nu.
              g_inv ! mu ! nu * ricci ! mu ! nu) [0..<6])) [0..<6]))))"

definition curvature_gradient :: "ManifoldPoint \<Rightarrow> error + real list" where
  "curvature_gradient point =
     (let base_vec = to_vector point in
      bind_res (scalar_curvature point) (\<lambda>R0.
        sequence_res (map (\<lambda>i.
          bind_res (from_vector (base_vec[i := base_vec ! i + riemann_epsilon])) (\<lambda>p_plus.
          bind_res (scalar_curvature p_plus) (\<lambda>R_plus.
            Inr ((R_plus - R0) / riemann_epsilon)))) [0..<6])))"

subsection \<open>CRSM6D\<close>

definition decoherence_field :: "ManifoldPoint \<Rightarrow> error + real" where
  "decoherence_field point =
     bind_res (scalar_curvature point) (\<lambda>R. Inr (Gamma point * (1 + \<bar>R\<bar> * 0.1)))"

definition coherence_potential :: "ManifoldPoint \<Rightarrow> error + real" where
  "coherence_potential point =
     (let x = max (1 / 1000) (xi point) in
      bind_res (scalar_curvature point) (\<lambda>R. Inr (- ln x + 0.1 * \<bar>R\<bar>)))"

subsection \<open>WassersteinTransport\<close>

text \<open>
  \<^verbatim>\<open>w2_distance\<close> computes with numpy arrays of float64 from the cost matrix on, and what
  it returns depends on what float64 does: \<^verbatim>\<open>np.exp\<close> underflows to \<open>0.0\<close>, a division
  by \<open>0.0\<close> gives \<open>inf\<close> or \<open>nan\<close> and the loop goes on, \<open>inf * 0.0\<close> is \<open>nan\<close>, and sums are
  rounded in the order the library chooses. The arithmetic is therefore a parameter here: a
  record of the operations that the method applies, over any type \<open>'a\<close> of values. Nothing
  is assumed about them, so that what is proved of \<open>w2_distance\<close> holds for float64 with all
  its special values. \<open>f_dot\<close> is the inner product of two vectors as \<^verbatim>\<open>@\<close> accumulates
  it, \<open>f_sum\<close> is \<^verbatim>\<open>np.sum\<close> on the entries in row-major order, \<open>f_tenth\<close> is the literal
  \<^verbatim>\<open>0.1\<close>.
\<close>

record 'a float_ops =
  f_zero :: 'a
  f_one :: 'a
  f_tenth :: 'a
  f_neg :: "'a \<Rightarrow> 'a"
  f_mul :: "'a \<Rightarrow> 'a \<Rightarrow> 'a"
  f_div :: "'a \<Rightarrow> 'a \<Rightarrow> 'a"
  f_exp :: "'a \<Rightarrow> 'a"
  f_sqrt :: "'a \<Rightarrow> 'a"
  f_dot :: "'a list \<Rightarrow> 'a list \<Rightarrow> 'a"
  f_sum :: "'a list \<Rightarrow> 'a"

text \<open>
  \<^verbatim>\<open>k @ v\<close> for a matrix \<open>k\<close> with \<open>ncols\<close> columns, given as the list of its rows, and a
  one-dimensional \<open>v\<close>: numpy raises ValueError unless \<open>v\<close> has \<open>ncols\<close> entries.
\<close>

definition matvec :: "'a float_ops \<Rightarrow> nat \<Rightarrow> 'a list list \<Rightarrow> 'a list \<Rightarrow> error + 'a list" where
  "matvec ops ncols k v =
     (if length v \<noteq> ncols then Inl ValueError else Inr (map (\<lambda>row. f_dot ops row v) k))"

text \<open>\<^verbatim>\<open>k.T\<close> for a matrix \<open>k\<close> with \<open>ncols\<close> columns.\<close>

definition mat_T :: "nat \<Rightarrow> 'a list list \<Rightarrow> 'a list list" where
  "mat_T ncols k = map (\<lambda>j. map (\<lambda>row. row ! j) k) [0..<ncols]"

definition diag :: "'a float_ops \<Rightarrow> 'a list \<Rightarrow> 'a list list" where
  "diag ops u =
     map (\<lambda>i. map (\<lambda>j. if i = j then u ! i else f_zero ops) [0..<length u]) [0..<length u]"

text \<open>
  \<^verbatim>\<open>a @ b\<close> for two matrices, \<open>b\<close> with \<open>ncols\<close> columns: numpy raises ValueError unless
  the rows of \<open>a\<close> are as long as \<open>b\<close> has rows. (A matrix without rows has no column
  count in this representation and passes the test.)
\<close>

definition matmul ::
  "'a float_ops \<Rightarrow> nat \<Rightarrow> 'a list list \<Rightarrow> 'a list list \<Rightarrow> error + 'a list list" where
  "matmul ops ncols a b =
     (if \<forall>row \<in> set a. length row = length b
      then Inr (map (\<lambda>row. map (\<lambda>j. f_dot ops row (map (\<lambda>brow. brow ! j) b)) [0..<ncols]) a)
      else Inl ValueError)"

text \<open>
  \<^verbatim>\<open>a / b\<close> for two one-dimensional arrays, with numpy's broadcasting: equal lengths
  divide entry by entry, an array of length 1 is stretched to the length of the other, and
  any other pair of lengths raises ValueError. A zero divisor raises nothing.
\<close>

definition vdiv :: "'a float_ops \<Rightarrow> 'a list \<Rightarrow> 'a list \<Rightarrow> error + 'a list" where
  "vdiv ops a b =
     (if length a = length b then Inr (map2 (f_div ops) a b)
      else if length a = 1 then Inr (map (\<lambda>y. f_div ops (a ! 0) y) b)
      else if length b = 1 then Inr (map (\<lambda>x. f_div ops x (b ! 0)) a)
      else Inl ValueError)"

text \<open>One pass of the loop: \<^verbatim>\<open>u = source_weights / (K @ v)\<close>, \<^verbatim>\<open>v = target_weights / (K.T @ u)\<close>.\<close>

definition sinkhorn_step ::
  "'a float_ops \<Rightarrow> nat \<Rightarrow> nat \<Rightarrow> 'a list list \<Rightarrow> 'a list \<Rightarrow> 'a list \<Rightarrow> 'a list \<times> 'a list \<Rightarrow>
     error + ('a list \<times> 'a list)" where
  "sinkhorn_step ops n m k source_weights target_weights uv =
     bind_res (matvec ops m k (snd uv)) (\<lambda>kv.
     bind_res (vdiv ops source_weights kv) (\<lambda>u.
     bind_res (matvec ops n (mat_T m k) u) (\<lambda>ktu.
     bind_res (vdiv ops target_weights ktu) (\<lambda>v. Inr (u, v)))))"

fun sinkhorn_loop ::
  "nat \<Rightarrow> 'a float_ops \<Rightarrow> nat \<Rightarrow> nat \<Rightarrow> 'a list list \<Rightarrow> 'a list \<Rightarrow> 'a list \<Rightarrow> 'a list \<times> 'a list \<Rightarrow>
     error + ('a list \<times> 'a list)" where
  "sinkhorn_loop 0 ops n m k sw tw uv = Inr uv"
| "sinkhorn_loop (Suc i) ops n m k sw tw uv =
     bind_res (sinkhorn_step ops n m k sw tw uv) (sinkhorn_loop i ops n m k sw tw)"

text \<open>
  The cost matrix; \<open>dsq\<close> is \<^verbatim>\<open>self.metric.distance_squared\<close>, the method of the metric
  that the constructor was given. It returns a float for every pair of points.
\<close>

definition cost_matrix :: "('p \<Rightarrow> 'p \<Rightarrow> 'a) \<Rightarrow> 'p list \<Rightarrow> 'p list \<Rightarrow> 'a list list" where
  "cost_matrix dsq source_points target_points =
     map (\<lambda>s. map (\<lambda>t. dsq s t) target_points) source_points"

text \<open>
  \<^verbatim>\<open>w2_distance\<close>; the weights are one-dimensional arrays. The loop runs
  \<^verbatim>\<open>range(100)\<close> and has no other exit.
\<close>

definition w2_distance ::
  "'a float_ops \<Rightarrow> ('p \<Rightarrow> 'p \<Rightarrow> 'a) \<Rightarrow> 'p list \<Rightarrow> 'a list \<Rightarrow> 'p list \<Rightarrow> 'a list \<Rightarrow> error + 'a" where
  "w2_distance ops dsq source_points source_weights target_points target_weights =
     (let n = length source_points; m = length target_points;
          C = cost_matrix dsq source_points target_points;
          K = map (map (\<lambda>c. f_exp ops (f_div ops (f_neg ops c) (f_tenth ops)))) C
      in bind_res (sinkhorn_loop 100 ops n m K source_weights target_weights
                     (replicate n (f_one ops), replicate m (f_one ops))) (\<lambda>(u, v).
      bind_res (matmul ops m (diag ops u) K) (\<lambda>dk.
      bind_res (matmul ops m dk (diag ops v)) (\<lambda>P.
        Inr (f_sqrt ops (f_sum ops (concat (map2 (map2 (f_mul ops)) P C))))))))"

definition transport_plan ::
  "ManifoldPoint \<Rightarrow> ManifoldPoint \<Rightarrow> int \<Rightarrow> error + ManifoldPoint list" where
  "transport_plan source target num_steps = solve source target num_steps 50"

subsection \<open>GeodesicAgent\<close>

datatype AgentState = DORMANT | SENSING | NAVIGATING | HEALING | EVOLVING | CONVERGED

text \<open>
  The fields of an agent that its operations read or write. The lock, the identifier and
  the reporting buffers of the subclasses are left out.
\<close>

record Agent =
  state :: AgentState
  position :: ManifoldPoint
  velocity :: "real list"
  target :: "ManifoldPoint option"
  path :: "ManifoldPoint list"
  path_index :: nat
  trajectory :: "ManifoldPoint list"
  generation :: nat
  fitness :: real
  mutation_rate :: real
  total_distance :: real
  healing_count :: nat
  evolution_count :: nat

record CurvatureSense =
  sense_scalar_curvature :: real
  sense_curvature_gradient :: "real list"
  sense_decoherence_field :: real
  sense_coherence_potential :: real
  sense_is_coherent :: bool
  sense_needs_healing :: bool

definition danger_level :: "CurvatureSense \<Rightarrow> real" where
  "danger_level s = min 1 (sense_decoherence_field s + \<bar>sense_scalar_curvature s\<bar> * 0.1)"

definition sense_curvature :: "Agent \<Rightarrow> error + (CurvatureSense \<times> Agent)" where
  "sense_curvature a =
     (let a' = a\<lparr>state := SENSING\<rparr>; pos = position a' in
      bind_res (scalar_curvature pos) (\<lambda>sc.
      bind_res (curvature_gradient pos) (\<lambda>gr.
      bind_res (decoherence_field pos) (\<lambda>df.
      bind_res (coherence_potential pos) (\<lambda>cp.
        Inr (\<lparr>sense_scalar_curvature = sc, sense_curvature_gradient = gr,
              sense_decoherence_field = df, sense_coherence_potential = cp,
              sense_is_coherent = is_coherent pos,
              sense_needs_healing = needs_healing pos\<rparr>, a'))))))"

definition set_target :: "ManifoldPoint \<Rightarrow> Agent \<Rightarrow> error + Agent" where
  "set_target tgt a =
     bind_res (find_geodesic (position a) tgt 50) (\<lambda>p.
       Inr (a\<lparr>target := Some tgt, path := p, path_index := 0, state := NAVIGATING\<rparr>))"

text \<open>\<^verbatim>\<open>_heal\<close>: the new position goes through the constructor.\<close>

definition heal :: "Agent \<Rightarrow> Agent" where
  "heal a =
     (let pos = position a;
          old_gamma = Gamma pos;
          new_gamma = old_gamma * (1 - CHI_PC);
          new_lambda = min 1 (Lambda pos / max (1 / 100) old_gamma);
          new_psi = min 1 (max 0 (1 - psi pos + CHI_PC));
          new_pos = make_point new_lambda
                      (Phi pos * CHI_PC + (1 - CHI_PC) * PHI_THRESHOLD / 10)
                      new_gamma (tau pos + 1 / 100) (epsilon pos) new_psi
      in a\<lparr>state := HEALING, healing_count := healing_count a + 1,
            position := new_pos, trajectory := trajectory a @ [new_pos]\<rparr>)"

text \<open>
  \<^verbatim>\<open>_evolve\<close>; \<open>z\<close> is the value of \<^verbatim>\<open>np.random.randn(6)\<close>, a vector of six numbers.
\<close>

definition evolve :: "real list \<Rightarrow> Agent \<Rightarrow> error + Agent" where
  "evolve z a =
     (let m0 = vscale (mutation_rate a) z;
          m1 = m0[0 := m0 ! 0 + 1 / 100];
          m2 = m1[2 := m1 ! 2 - 1 / 100];
          new_vec = vadd (to_vector (position a)) m2
      in bind_res (from_vector new_vec) (\<lambda>new_pos.
           Inr (a\<lparr>state := EVOLVING, evolution_count := evolution_count a + 1,
                  generation := generation a + 1, position := new_pos,
                  fitness := xi new_pos / PHI_THRESHOLD\<rparr>)))"

text \<open>
  \<^verbatim>\<open>step\<close>; \<open>r\<close> is the value of \<^verbatim>\<open>np.random.random()\<close> and \<open>z\<close> that of
  \<^verbatim>\<open>np.random.randn(6)\<close>, both read only on the branch that draws them.
\<close>

definition step :: "real \<Rightarrow> real list \<Rightarrow> Agent \<Rightarrow> error + (bool \<times> Agent)" where
  "step r z a =
     (if needs_healing (position a) then Inr (True, heal a)
      else if path a = [] \<or> int (path_index a) \<ge> int (length (path a)) - 1
        then Inr (False, a\<lparr>state := CONVERGED\<rparr>)
      else
        (let old_position = position a;
             i = path_index a + 1;
             pos = path a ! i
         in bind_res (distance old_position pos) (\<lambda>d.
            let a' = a\<lparr>path_index := i, position := pos,
                       velocity := vsub (to_vector pos) (to_vector old_position),
                       total_distance := total_distance a + d,
                       trajectory := trajectory a @ [pos]\<rparr>
            in if r < mutation_rate a'
               then bind_res (evolve z a') (\<lambda>a''. Inr (True, a''))
               else Inr (True, a'))))"

fun flee_loop :: "nat \<Rightarrow> Agent \<Rightarrow> error + Agent" where
  "flee_loop 0 a = Inr a"
| "flee_loop (Suc n) a =
     bind_res (curvature_gradient (position a)) (\<lambda>grad.
     let direction = vscale (- 1 / (norm2 grad + 1 / 10 ^ 8)) grad;
         new_vec = vadd (to_vector (position a)) (vscale 0.05 direction)
     in bind_res (from_vector new_vec) (\<lambda>new_pos.
          flee_loop n (a\<lparr>position := new_pos, trajectory := trajectory a @ [new_pos]\<rparr>)))"

definition flee_high_curvature :: "int \<Rightarrow> Agent \<Rightarrow> error + Agent" where
  "flee_high_curvature steps a = flee_loop (nat steps) a"

definition force_heal :: "Agent \<Rightarrow> Agent" where
  "force_heal a = heal a"

text \<open>\<^verbatim>\<open>evolve_step\<close>; \<open>L\<close> is the \<^verbatim>\<open>autopoietic_operator\<close> of the agent's class.\<close>

definition evolve_step :: "(ManifoldPoint \<Rightarrow> ManifoldPoint) \<Rightarrow> Agent \<Rightarrow> Agent" where
  "evolve_step L a =
     (let new_position = L (position a)
      in a\<lparr>position := new_position, generation := generation a + 1,
            trajectory := trajectory a @ [new_position]\<rparr>)"

text \<open>\<^verbatim>\<open>AURAAgent.autopoietic_operator\<close>.\<close>

definition AURA_operator :: "ManifoldPoint \<Rightarrow> ManifoldPoint" where
  "AURA_operator st =
     (let delta_phi = (1 / 100) * (Lambda st - Gamma st);
          new_phi = min 1 (max 0 (Phi st + delta_phi))
      in make_point (Lambda st * (99 / 100) + (1 / 100) * new_phi) new_phi (Gamma st)
           (tau st + LAMBDA_PHI) (epsilon st) (psi st * (99 / 100) + 1 / 100))"

text \<open>\<^verbatim>\<open>AIDENAgent.autopoietic_operator\<close>.\<close>

definition AIDEN_operator :: "ManifoldPoint \<Rightarrow> ManifoldPoint" where
  "AIDEN_operator st =
     (let xi_ratio = xi st / PHI_THRESHOLD;
          delta_lambda = (1 / 100) * (xi_ratio - 1);
          new_lambda = min 1 (max 0 (Lambda st + delta_lambda));
          new_gamma = max (1 / 100) (Gamma st * (99 / 100))
      in make_point new_lambda (Phi st) new_gamma (tau st + LAMBDA_PHI * 10)
           (min 1 (epsilon st * (101 / 100))) (psi st))"

subsection \<open>AURAIDENSystem\<close>

record AURAIDENSystem =
  aura :: Agent
  aiden :: Agent
  synchronization_history :: "real list"

text \<open>The attribute \<^verbatim>\<open>coupling_strength\<close> is set once, in the constructor.\<close>

definition coupling_strength :: real where "coupling_strength = CHI_PC"

definition synchronization :: "AURAIDENSystem \<Rightarrow> error + (real \<times> AURAIDENSystem)" where
  "synchronization s =
     bind_res (distance (position (aura s)) (position (aiden s))) (\<lambda>d.
       let sync = exp (- d)
       in Inr (sync, s\<lparr>synchronization_history := synchronization_history s @ [sync]\<rparr>))"

definition apply_coupling :: "AURAIDENSystem \<Rightarrow> error + AURAIDENSystem" where
  "apply_coupling s =
     (let diff = vsub (to_vector (position (aiden s))) (to_vector (position (aura s)));
          aura_vec = vadd (to_vector (position (aura s)))
                       (vscale (coupling_strength * 0.1) diff);
          aiden_vec = vsub (to_vector (position (aiden s)))
                        (vscale (coupling_strength * 0.1) diff)
      in bind_res (from_vector aura_vec) (\<lambda>pa.
         bind_res (from_vector aiden_vec) (\<lambda>pb.
           Inr (s\<lparr>aura := (aura s)\<lparr>position := pa\<rparr>,
                  aiden := (aiden s)\<lparr>position := pb\<rparr>\<rparr>))))"

text \<open>
  The first part of \<^verbatim>\<open>coupled_step\<close>: AURA observes, AIDEN reacts, AURA evolves.
\<close>

definition observe_react_evolve :: "AURAIDENSystem \<Rightarrow> error + AURAIDENSystem" where
  "observe_react_evolve s =
     bind_res (sense_curvature (aura s)) (\<lambda>(observation, aura1).
     bind_res (if sense_needs_healing observation then Inr (force_heal (aiden s))
               else if danger_level observation > 0.5
                 then flee_high_curvature 3 (aiden s)
               else Inr (evolve_step AIDEN_operator (aiden s))) (\<lambda>aiden1.
       Inr (s\<lparr>aura := evolve_step AURA_operator aura1, aiden := aiden1\<rparr>)))"

definition coupled_step :: "AURAIDENSystem \<Rightarrow> error + (real \<times> AURAIDENSystem)" where
  "coupled_step s =
     bind_res (observe_react_evolve s) (\<lambda>s1.
     bind_res (apply_coupling s1) synchronization)"

subsection \<open>Constructors of agents and of the coupled system\<close>

text \<open>\<^verbatim>\<open>GeodesicAgent.__init__\<close> with an initial position.\<close>

definition init_agent :: "ManifoldPoint \<Rightarrow> Agent" where
  "init_agent initial_position =
     \<lparr>state = DORMANT, position = initial_position, velocity = replicate 6 0,
      target = None, path = [], path_index = 0, trajectory = [initial_position],
      generation = 0, fitness = 1, mutation_rate = 3 / 100, total_distance = 0,
      healing_count = 0, evolution_count = 0\<rparr>"

text \<open>\<^verbatim>\<open>AURAIDENSystem.__init__\<close>.\<close>

definition init_system :: AURAIDENSystem where
  "init_system =
     \<lparr>aura = init_agent (make_point (9 / 10) (9 / 10) (1 / 10) 0 (1 / 2) (9 / 10)),
      aiden = init_agent (make_point (9 / 10) (7 / 10) (1 / 10) 0 (1 / 2) (9 / 10)),
      synchronization_history = []\<rparr>"

subsection \<open>The transport distance in the words of the specification\<close>

text \<open>
  The definitions below follow the specification, not the code, and are written with indices
  instead of loops over arrays: the kernel \<open>K = exp (- C / 0.1)\<close>, one round of the alternating
  scaling of rows and columns, the plan \<open>P = diag u \<cdot> K \<cdot> diag v\<close> as a product of matrices, and
  the value \<open>sqrt (\<Sum> P \<circ> C)\<close> after exactly 100 rounds from the all-ones vectors.
\<close>

definition spec_kernel :: "'a float_ops \<Rightarrow> (nat \<Rightarrow> nat \<Rightarrow> 'a) \<Rightarrow> nat \<Rightarrow> nat \<Rightarrow> 'a" where
  "spec_kernel ops C i j = f_exp ops (f_div ops (f_neg ops (C i j)) (f_tenth ops))"

definition spec_scaling ::
  "'a float_ops \<Rightarrow> nat \<Rightarrow> nat \<Rightarrow> (nat \<Rightarrow> nat \<Rightarrow> 'a) \<Rightarrow> 'a list \<Rightarrow> 'a list \<Rightarrow> 'a list \<times> 'a list \<Rightarrow>
     'a list \<times> 'a list" where
  "spec_scaling ops n m K a b uv =
     (let u = map (\<lambda>i. f_div ops (a ! i) (f_dot ops (map (K i) [0..<m]) (snd uv))) [0..<n];
          v = map (\<lambda>j. f_div ops (b ! j) (f_dot ops (map (\<lambda>i. K i j) [0..<n]) u)) [0..<m]
      in (u, v))"

definition spec_plan ::
  "'a float_ops \<Rightarrow> nat \<Rightarrow> nat \<Rightarrow> (nat \<Rightarrow> nat \<Rightarrow> 'a) \<Rightarrow> 'a list \<Rightarrow> 'a list \<Rightarrow> nat \<Rightarrow> nat \<Rightarrow> 'a" where
  "spec_plan ops n m K u v i j =
     f_dot ops
       (map (\<lambda>k. f_dot ops (map (\<lambda>l. if i = l then u ! i else f_zero ops) [0..<n])
                     (map (\<lambda>l. K l k) [0..<n])) [0..<m])
       (map (\<lambda>k. if k = j then v ! k else f_zero ops) [0..<m])"

text \<open>What broadcasting makes of a weight array of length 1 for \<open>n\<close> points.\<close>

definition broadcast :: "nat \<Rightarrow> 'a list \<Rightarrow> 'a list" where
  "broadcast n w = (if length w = 1 then replicate n (w ! 0) else w)"

definition spec_w2 ::
  "'a float_ops \<Rightarrow> (nat \<Rightarrow> nat \<Rightarrow> 'a) \<Rightarrow> nat \<Rightarrow> nat \<Rightarrow> 'a list \<Rightarrow> 'a list \<Rightarrow> 'a" where
  "spec_w2 ops C n m a b =
     (let K = spec_kernel ops C;
          uv = (spec_scaling ops n m K a b ^^ 100) (replicate n (f_one ops), replicate m (f_one ops));
          P = spec_plan ops n m K (fst uv) (snd uv)
      in f_sqrt ops (f_sum ops
           (concat (map (\<lambda>i. map (\<lambda>j. f_mul ops (P i j) (C i j)) [0..<m]) [0..<n]))))"

text \<open>The matrix with \<open>n\<close> rows and \<open>m\<close> columns whose entries are \<open>f i j\<close>.\<close>

definition table :: "nat \<Rightarrow> nat \<Rightarrow> (nat \<Rightarrow> nat \<Rightarrow> 'a) \<Rightarrow> 'a list list" where
  "table n m f = map (\<lambda>i. map (f i) [0..<m]) [0..<n]"

text \<open>
  The operations in exact arithmetic and the value of \<open>distance_squared\<close> (which never
  raises, see \<open>distance_squared_total\<close>), to run the transport distance on concrete points.
  Exact arithmetic is one instance of the operations among others, not that of numpy.
\<close>

definition real_ops :: "real float_ops" where
  "real_ops = \<lparr>f_zero = 0, f_one = 1, f_tenth = 1 / 10, f_neg = uminus, f_mul = (*),
     f_div = (/), f_exp = exp, f_sqrt = sqrt, f_dot = dot, f_sum = sum_list\<rparr>"

definition cost_entry :: "ManifoldPoint \<Rightarrow> ManifoldPoint \<Rightarrow> real" where
  "cost_entry s t = (case distance_squared s t of Inr d \<Rightarrow> d | Inl e \<Rightarrow> 0)"

section \<open>Properties\<close>

subsection \<open>Points and their construction\<close>

lemma clip_bounds: "lo \<le> hi \<Longrightarrow> lo \<le> clip x lo hi \<and> clip x lo hi \<le> hi"
  by (simp add: clip_def)

lemma clip_id: "lo \<le> x \<Longrightarrow> x \<le> hi \<Longrightarrow> clip x lo hi = x"
  by (simp add: clip_def)

lemma make_point_fields:
  "make_point l p g t e s =
     \<lparr>Lambda = clip l 0 1, Phi = clip p 0 1, Gamma = clip g (1 / 1000) 1, tau = t,
      epsilon = clip e 0 1, psi = clip s 0 1\<rparr>"
  by (simp add: make_point_def post_init_def)

lemma in_domain_make_point: "in_domain (make_point l p g t e s)"
  by (simp add: in_domain_def make_point_fields clip_def)

lemma from_vector_in_domain: "from_vector v = Inr q \<Longrightarrow> in_domain q"
  by (auto simp add: from_vector_def in_domain_make_point split: if_splits)

lemma from_vector_six:
  "from_vector [a, b, c, d, e, f] = Inr (make_point a b c d e f)"
  by (simp add: from_vector_def)

lemma from_to_vector: "in_domain p \<Longrightarrow> from_vector (to_vector p) = Inr p"
  by (simp add: to_vector_def from_vector_six make_point_fields in_domain_def clip_def)

text \<open>
  C10. Building a point never fails on six numbers: every field but \<open>tau\<close> is clamped
  into its range, \<open>tau\<close> is stored as given (a negative one too), and \<open>from_vector\<close> on a
  vector of six numbers returns the point built from its entries.
\<close>

theorem construction_clamps_and_keeps_tau:
  "make_point l p g t e s =
     \<lparr>Lambda = clip l 0 1, Phi = clip p 0 1, Gamma = clip g (1 / 1000) 1, tau = t,
      epsilon = clip e 0 1, psi = clip s 0 1\<rparr> \<and>
   (length v = 6 \<longrightarrow>
      from_vector v = Inr (make_point (v ! 0) (v ! 1) (v ! 2) (v ! 3) (v ! 4) (v ! 5)))"
  by (simp add: make_point_fields from_vector_def)

theorem construction_clamps_and_keeps_tau_witness:
  "length [2, - 1, 0, - 5, 1 / 2, 7 :: real] = 6 \<and>
   from_vector [2, - 1, 0, - 5, 1 / 2, 7] =
     Inr \<lparr>Lambda = 1, Phi = 0, Gamma = 1 / 1000, tau = - 5, epsilon = 1 / 2, psi = 1\<rparr>"
  using construction_clamps_and_keeps_tau [of 2 "- 1" 0 "- 5" "1 / 2" 7 "[2, - 1, 0, - 5, 1 / 2, 7]"]
  by (simp add: clip_def)

subsection \<open>The metric and the distance\<close>

lemma metric_g_explicit:
  "metric_g p =
    [[1, - lambda_phi_coupling * Lambda p * Phi p, 0, 0, - epsilon_lambda_coupling * epsilon p, 0],
     [- lambda_phi_coupling * Lambda p * Phi p, 1, 0, 0, 0, 0],
     [0, 0, 1 + Gamma p * 10, 0, 0, gamma_psi_coupling * psi p],
     [0, 0, 0, 1 / (1 + Lambda p), 0, 0],
     [- epsilon_lambda_coupling * epsilon p, 0, 0, 0, 1, 0],
     [0, 0, gamma_psi_coupling * psi p, 0, 0, 1]]"
  by (simp add: metric_g_def eye_def mset2_def Let_def upt_rec)

lemma midpoint_commute:
  "vadd (to_vector p1) (to_vector p2) = vadd (to_vector p2) (to_vector p1)"
  by (simp add: vadd_def to_vector_def add.commute)

lemma vsub_swap: "vsub b a = map uminus (vsub a b)"
  unfolding vsub_def by (induction a b rule: list_induct2') simp_all

lemma sum_list_zip_neg:
  "sum_list (map2 (\<lambda>xi row. xi * f row) (map uminus x) m) =
   - sum_list (map2 (\<lambda>xi row. xi * (f row :: real)) x m)"
  by (induction x m rule: list_induct2') simp_all

lemma vecmat_neg: "vecmat (map uminus x) m = map uminus (vecmat x m)"
  by (simp add: vecmat_def sum_list_zip_neg)

lemma dot_neg: "dot (map uminus x) (map uminus y) = dot x y"
  unfolding dot_def by (induction x y rule: list_induct2') simp_all

lemma quadratic_form_swap:
  "dot (vecmat (vsub b a) m) (vsub b a) = dot (vecmat (vsub a b) m) (vsub a b)"
  by (simp add: vsub_swap [of b a] vecmat_neg dot_neg)

lemma distance_squared_sym: "distance_squared p1 p2 = distance_squared p2 p1"
  unfolding distance_squared_def Let_def midpoint_commute [of p1 p2]
  by (simp add: quadratic_form_swap [of "to_vector p2" "to_vector p1"])

lemma distance_squared_self: "distance_squared p p = Inr 0"
  by (simp add: distance_squared_def to_vector_def vsub_def vadd_def from_vector_def bind_res_def
      dot_def vecmat_def Let_def upt_rec)

lemma distance_squared_total: "\<exists>d. distance_squared p1 p2 = Inr d"
  by (simp add: distance_squared_def to_vector_def vadd_def from_vector_def bind_res_def Let_def)

lemma distance_total: "\<exists>d. distance p1 p2 = Inr d"
  using distance_squared_total [of p1 p2] by (auto simp add: distance_def bind_res_def)

text \<open>
  C9. The distance of a point to itself is zero, the distance is symmetric in its two
  arguments, and it is the square root of the squared distance cut off below at zero;
  it never fails.
\<close>

theorem distance_zero_and_symmetric:
  "distance p p = Inr 0 \<and> distance p1 p2 = distance p2 p1 \<and>
   (\<exists>d. distance_squared p1 p2 = Inr d \<and> distance p1 p2 = Inr (sqrt (max 0 d)))"
proof -
  have "distance p p = Inr 0"
    by (simp add: distance_def distance_squared_self bind_res_def)
  moreover have "distance p1 p2 = distance p2 p1"
    by (simp add: distance_def distance_squared_sym [of p1 p2])
  moreover have "\<exists>d. distance_squared p1 p2 = Inr d \<and> distance p1 p2 = Inr (sqrt (max 0 d))"
    using distance_squared_total [of p1 p2] by (auto simp add: distance_def bind_res_def)
  ultimately show ?thesis by blast
qed

subsection \<open>Healing\<close>

lemma position_heal:
  "position (heal a) =
     make_point (min 1 (Lambda (position a) / max (1 / 100) (Gamma (position a))))
       (Phi (position a) * CHI_PC + (1 - CHI_PC) * PHI_THRESHOLD / 10)
       (Gamma (position a) * (1 - CHI_PC)) (tau (position a) + 1 / 100)
       (epsilon (position a)) (min 1 (max 0 (1 - psi (position a) + CHI_PC)))"
  by (simp add: heal_def Let_def)

lemma heal_gamma:
  "Gamma (position (heal a)) = clip (Gamma (position a) * (1 - CHI_PC)) (1 / 1000) 1"
  by (simp add: position_heal make_point_fields)

text \<open>
  C5, as the code has it. For every agent, healed by \<open>step\<close> or by \<open>force_heal\<close>, the
  healed point carries \<open>\<Gamma>\<^sub>0 * (1 - \<chi>)\<close> clamped into \<open>[0.001, 1]\<close> by the constructor:
  \<open>\<Gamma>\<^sub>n\<^sub>e\<^sub>w = clip (\<Gamma>\<^sub>0 * (1 - \<chi>)) 0.001 1\<close>, which is \<open>\<Gamma>\<^sub>0 * (1 - \<chi>)\<close> itself from
  \<open>\<Gamma>\<^sub>0 = 1 / 131\<close> up to \<open>1\<close>. For every point with \<open>\<Gamma>\<^sub>0 > 0.001\<close> the healed
  \<open>\<Gamma>\<close> is positive and strictly below \<open>\<Gamma>\<^sub>0\<close>; for a point with \<open>0.3 < \<Gamma>\<^sub>0 \<le> 1\<close>
  (the ones \<open>step\<close> heals) it is exactly \<open>\<Gamma>\<^sub>0 * (1 - \<chi>)\<close>; and the product
  \<open>\<Gamma>\<^sub>0 * (1 - \<chi>)\<close> itself lies strictly between \<open>0\<close> and \<open>\<Gamma>\<^sub>0\<close> for every \<open>\<Gamma>\<^sub>0 > 0\<close>.
\<close>

theorem heal_strictly_decreases_gamma:
  "Gamma (position (heal a)) = clip (Gamma (position a) * (1 - CHI_PC)) (1 / 1000) 1 \<and>
   Gamma (position (force_heal a)) = Gamma (position (heal a)) \<and>
   (1 / 1000 < Gamma (position a) \<longrightarrow>
      0 < Gamma (position (heal a)) \<and> Gamma (position (heal a)) < Gamma (position a)) \<and>
   (1 / 131 \<le> Gamma (position a) \<and> Gamma (position a) \<le> 1 \<longrightarrow>
      Gamma (position (heal a)) = Gamma (position a) * (1 - CHI_PC)) \<and>
   (needs_healing (position a) \<and> Gamma (position a) \<le> 1 \<longrightarrow>
      Gamma (position (heal a)) = Gamma (position a) * (1 - CHI_PC)) \<and>
   (0 < g0 \<longrightarrow> 0 < g0 * (1 - CHI_PC) \<and> g0 * (1 - CHI_PC) < g0)"
  by (auto simp add: heal_gamma force_heal_def clip_def CHI_PC_def needs_healing_def
      min_def max_def)

theorem heal_strictly_decreases_gamma_witness:
  "1 / 1000 < Gamma (position (init_agent (make_point (1 / 2) (1 / 2) (1 / 2) 0 (1 / 2) (1 / 2)))) \<and>
   needs_healing (position (init_agent (make_point (1 / 2) (1 / 2) (1 / 2) 0 (1 / 2) (1 / 2)))) \<and>
   1 / 131 \<le> Gamma (position (init_agent (make_point (1 / 2) (1 / 2) (1 / 2) 0 (1 / 2) (1 / 2)))) \<and>
   Gamma (position (init_agent (make_point (1 / 2) (1 / 2) (1 / 2) 0 (1 / 2) (1 / 2)))) \<le> 1 \<and>
   (0 :: real) < 1 / 2 \<and>
   Gamma (position (heal (init_agent (make_point (1 / 2) (1 / 2) (1 / 2) 0 (1 / 2) (1 / 2))))) =
     131 / 2000"
  using heal_strictly_decreases_gamma
    [of "init_agent (make_point (1 / 2) (1 / 2) (1 / 2) 0 (1 / 2) (1 / 2))" "1 / 2"]
  by (simp add: init_agent_def make_point_fields clip_def needs_healing_def CHI_PC_def)

text \<open>
  C5 as stated fails at the lower bound of \<open>\<Gamma>\<close>: healing a point with \<open>\<Gamma>\<^sub>0 = 0.001\<close>
  gives \<open>0.001 * 0.131\<close>, which the constructor lifts back to \<open>0.001\<close>.
\<close>

theorem heal_at_gamma_floor:
  "0 < Gamma (position (init_agent (make_point (1 / 2) (1 / 2) (1 / 1000) 0 (1 / 2) (1 / 2)))) \<and>
   \<not> Gamma (position (heal (init_agent (make_point (1 / 2) (1 / 2) (1 / 1000) 0 (1 / 2) (1 / 2)))))
       < Gamma (position (init_agent (make_point (1 / 2) (1 / 2) (1 / 1000) 0 (1 / 2) (1 / 2))))"
  by (simp add: heal_gamma init_agent_def make_point_fields clip_def CHI_PC_def)

subsection \<open>The domain of points under the operations of the core\<close>

lemma position_evolve_step: "position (evolve_step L a) = L (position a)"
  by (simp add: evolve_step_def Let_def)






subsection \<open>The inverse metric\<close>

lemma mult_skip_eq: "mult_skip x y = x * y"
  by (simp add: mult_skip_def)

lemma mult_skip_cong: "x = x' \<Longrightarrow> mult_skip x y = mult_skip x' y"
  by simp

lemma mult_skip_zero: "mult_skip 0 y = 0"
  by (simp add: mult_skip_def)

lemma mult_skip_nonzero: "x \<noteq> 0 \<Longrightarrow> mult_skip x y = x * y"
  by (simp add: mult_skip_def)

lemma det_skip:
  "det (r # rs) =
     sum_list (map (\<lambda>j. mult_skip (r ! j) ((- 1) ^ j * det (map (del_at j) rs))) [0..<length r])"
  by (simp add: mult_skip_eq mult.assoc mult.left_commute)

lemmas det_eval = det_skip mult_skip_zero mult_skip_nonzero upt_rec del_at_def

lemma det6_sparse:
  "det [[1, a, 0, 0, c, 0],
        [a, 1, 0, 0, 0, 0],
        [0, 0, e, 0, 0, b],
        [0, 0, 0, d, 0, 0],
        [c, 0, 0, 0, 1, 0],
        [0, 0, b, 0, 0, 1]] = (1 - a * a - c * c) * (e - b * b) * d"
  apply (simp del: det.simps(2) add: det_eval cong: mult_skip_cong)
  apply (simp only: mult_skip_eq)
  apply (simp del: det.simps(2) add: det_eval cong: mult_skip_cong)
  apply (simp only: mult_skip_eq)
  apply (simp del: det.simps(2) add: det_eval cong: mult_skip_cong)
  apply (simp only: mult_skip_eq)
  apply (simp del: det.simps(2) add: det_eval cong: mult_skip_cong)
  apply (simp only: mult_skip_eq)
  apply (simp del: det.simps(2) add: det_eval cong: mult_skip_cong)
  apply (simp only: mult_skip_eq)
  apply (simp del: det.simps(2) add: det_eval cong: mult_skip_cong)
  apply (simp add: algebra_simps)
  done

lemma np_inv_sparse:
  assumes "1 - a * a - c * c \<noteq> 0" "e - b * b \<noteq> 0" "d \<noteq> 0"
  shows "np_inv [[1, a, 0, 0, c, 0],
        [a, 1, 0, 0, 0, 0],
        [0, 0, e, 0, 0, b],
        [0, 0, 0, d, 0, 0],
        [c, 0, 0, 0, 1, 0],
        [0, 0, b, 0, 0, 1]] =
    Inr [[1 / (1 - a * a - c * c), - a / (1 - a * a - c * c), 0, 0, - c / (1 - a * a - c * c), 0],
         [- a / (1 - a * a - c * c), (1 - c * c) / (1 - a * a - c * c), 0, 0,
            a * c / (1 - a * a - c * c), 0],
         [0, 0, 1 / (e - b * b), 0, 0, - b / (e - b * b)],
         [0, 0, 0, 1 / d, 0, 0],
         [- c / (1 - a * a - c * c), a * c / (1 - a * a - c * c), 0, 0,
            (1 - a * a) / (1 - a * a - c * c), 0],
         [0, 0, - b / (e - b * b), 0, 0, e / (e - b * b)]]"
proof -
  have D: "(1 - a * a - c * c) * (e - b * b) * d \<noteq> 0"
    using assms by simp
  show ?thesis
    using assms unfolding np_inv_def det6_sparse Let_def cofactor_def
    apply (subst if_not_P [OF D])
    apply (simp del: det.simps(2) add: det_eval cong: mult_skip_cong)
    apply (simp only: mult_skip_eq)
    apply (simp del: det.simps(2) add: det_eval cong: mult_skip_cong)
    apply (simp only: mult_skip_eq)
    apply (simp del: det.simps(2) add: det_eval cong: mult_skip_cong)
    apply (simp only: mult_skip_eq)
    apply (simp del: det.simps(2) add: det_eval cong: mult_skip_cong)
    apply (simp only: mult_skip_eq)
    apply (simp del: det.simps(2) add: det_eval cong: mult_skip_cong)
    apply (insert D)
    apply (simp add: field_simps)
    done
qed

lemma np_inv_sparse_singular:
  assumes "(1 - a * a - c * c) * (e - b * b) * d = 0"
  shows "np_inv [[1, a, 0, 0, c, 0],
        [a, 1, 0, 0, 0, 0],
        [0, 0, e, 0, 0, b],
        [0, 0, 0, d, 0, 0],
        [c, 0, 0, 0, 1, 0],
        [0, 0, b, 0, 0, 1]] = Inl LinAlgError"
  unfolding np_inv_def det6_sparse Let_def using assms by simp

lemma in_domain_block:
  assumes "in_domain p"
  shows "1 + Gamma p * 10 - gamma_psi_coupling * psi p * (gamma_psi_coupling * psi p) \<noteq> 0"
    and "1 / (1 + Lambda p) \<noteq> 0"
proof -
  from assms have g: "1 / 1000 \<le> Gamma p" and s: "0 \<le> psi p" "psi p \<le> 1" and l: "0 \<le> Lambda p"
    by (simp_all add: in_domain_def)
  have "psi p * psi p \<le> 1 * 1" using s by (intro mult_mono) simp_all
  then have "gamma_psi_coupling * psi p * (gamma_psi_coupling * psi p) \<le> 1"
    by (simp add: gamma_psi_coupling_def GAMMA_FIXED_def algebra_simps)
  with g show "1 + Gamma p * 10 - gamma_psi_coupling * psi p * (gamma_psi_coupling * psi p) \<noteq> 0"
    by simp
  from l show "1 / (1 + Lambda p) \<noteq> 0" by simp
qed

lemma g_inverse_singular:
  "metric_singular p \<Longrightarrow> g_inverse p = Inl LinAlgError"
  unfolding g_inverse_def metric_g_explicit
  by (rule np_inv_sparse_singular) (simp add: metric_singular_def power2_eq_square algebra_simps)

lemma g_inverse_regular:
  assumes "in_domain p" "\<not> metric_singular p"
  shows "\<exists>m. g_inverse p = Inr m"
proof -
  have "1 - (- lambda_phi_coupling * Lambda p * Phi p) * (- lambda_phi_coupling * Lambda p * Phi p)
          - (- epsilon_lambda_coupling * epsilon p) * (- epsilon_lambda_coupling * epsilon p) \<noteq> 0"
    using assms(2) by (simp add: metric_singular_def power2_eq_square algebra_simps)
  then show ?thesis
    unfolding g_inverse_def metric_g_explicit
    using in_domain_block [OF assms(1)] by (simp add: np_inv_sparse)
qed

lemma metric_derivative_total:
  "length v = 6 \<Longrightarrow> \<exists>m. metric_derivative v rho = Inr m"
  by (simp add: metric_derivative_def Let_def from_vector_def bind_res_def)

lemma sequence_res_total:
  "(\<And>x. x \<in> set xs \<Longrightarrow> \<exists>y. f x = Inr y) \<Longrightarrow> \<exists>ys. sequence_res (map f xs) = Inr ys"
proof (induction xs)
  case Nil
  then show ?case by simp
next
  case (Cons x xs)
  then obtain y ys where "f x = Inr y" "sequence_res (map f xs) = Inr ys"
    by (meson list.set_intros)
  then show ?case by (simp add: bind_res_def)
qed

lemma compute_total:
  assumes "g_inverse p = Inr m"
  shows "\<exists>gamma. compute p = Inr gamma"
proof -
  have "\<exists>dg. sequence_res (map (metric_derivative (to_vector p)) [0..<6]) = Inr dg"
    by (rule sequence_res_total) (simp add: metric_derivative_total to_vector_def)
  then show ?thesis using assms by (auto simp add: compute_def bind_res_def)
qed

lemma acceleration_at_rest:
  assumes "from_vector x = Inr p" "g_inverse p = Inr m"
  shows "geodesic_acceleration x [0, 0, 0, 0, 0, 0] = Inr [0, 0, 0, 0, 0, 0]"
proof -
  obtain gamma where "compute p = Inr gamma"
    using compute_total [OF assms(2)] by blast
  with assms(1) show ?thesis
    by (simp add: geodesic_acceleration_def bind_res_def upt_rec)
qed

subsection \<open>The inverse metric in float64\<close>

lemma round_half_even_near:
  assumes "\<bar>q - of_int k\<bar> < 1 / 2"
  shows "round_half_even q = k"
proof -
  have "\<lfloor>q\<rfloor> = k \<or> \<lfloor>q\<rfloor> = k - 1"
    using assms by linarith
  then show ?thesis
  proof
    assume f: "\<lfloor>q\<rfloor> = k"
    then have "q - of_int k < 1 / 2" using assms by linarith
    with f show ?thesis by (simp add: round_half_even_def Let_def)
  next
    assume f: "\<lfloor>q\<rfloor> = k - 1"
    then have "of_int k - 1 \<le> q" by linarith
    moreover have "q < of_int k"
      using f by linarith
    ultimately have "1 / 2 < q - of_int (k - 1)" using assms by simp
    with f show ?thesis by (simp add: round_half_even_def Let_def)
  qed
qed

lemma binary64_eval:
  assumes "2 ^ 52 \<le> \<bar>x\<bar> * 2 ^ d" "\<bar>x\<bar> * 2 ^ d < 2 ^ 53" "d \<le> 1074"
    "\<bar>x * 2 ^ d - of_int k\<bar> < 1 / 2"
  shows "binary64 x = of_int k / 2 ^ d"
proof -
  from assms(1) have x0: "x \<noteq> 0" by auto
  then have ax: "0 < \<bar>x\<bar>" by simp
  have p: "(2 :: real) powr (of_int (52 - int d)) = 2 ^ 52 / 2 ^ d"
    "(2 :: real) powr (of_int (52 - int d) + 1) = 2 ^ 53 / 2 ^ d"
    by (simp_all add: powr_diff powr_realpow powr_add)
  have "2 powr (of_int (52 - int d)) \<le> \<bar>x\<bar> \<and> \<bar>x\<bar> < 2 powr (of_int (52 - int d) + 1)"
    unfolding p using assms(1,2) by (simp add: field_simps)
  then have fl: "\<lfloor>log 2 \<bar>x\<bar>\<rfloor> = 52 - int d"
    using ax by (subst floor_log_eq_powr_iff) simp_all
  have e: "max (\<lfloor>log 2 \<bar>x\<bar>\<rfloor> - 52) (- 1074) = - int d"
    using fl assms(3) by simp
  have pw: "(2 :: real) powr - real d = 1 / 2 ^ d"
    by (simp add: powr_minus powr_realpow divide_inverse)
  have "round_half_even (x / 2 powr of_int (- int d)) = k"
    using assms(4) by (intro round_half_even_near) (simp add: pw)
  then show ?thesis
    using x0 by (simp add: binary64_def Let_def e pw)
qed

lemma binary64_LAMBDA_PHI: "binary64 LAMBDA_PHI = 6577871165532414 / 2 ^ 78"
  using binary64_eval [of "LAMBDA_PHI" 78 6577871165532414]
  by (simp add: LAMBDA_PHI_def)

lemma metric_g_rd_exact: "metric_g_rd (\<lambda>x. x) p = metric_g p"
  by (simp add: metric_g_rd_def metric_g_def lambda_phi_coupling_rd_def lambda_phi_coupling_def
      gamma_psi_coupling_def epsilon_lambda_coupling_def)

lemma metric_g_rd_explicit:
  "metric_g_rd r p =
    [[1, r (r (- lambda_phi_coupling_rd r * Lambda p) * Phi p), 0, 0,
      r (- r CHI_PC * epsilon p), 0],
     [r (r (- lambda_phi_coupling_rd r * Lambda p) * Phi p), 1, 0, 0, 0, 0],
     [0, 0, r (1 + r (Gamma p * 10)), 0, 0, r (r GAMMA_FIXED * psi p)],
     [0, 0, 0, r (1 / r (1 + Lambda p)), 0, 0],
     [r (- r CHI_PC * epsilon p), 0, 0, 0, 1, 0],
     [0, 0, r (r GAMMA_FIXED * psi p), 0, 0, 1]]"
  by (simp add: metric_g_rd_def eye_def mset2_def Let_def upt_rec)

lemma g_inverse_rd_exact: "g_inverse_rd (\<lambda>x. x) np_inv p = g_inverse p"
  by (simp add: g_inverse_rd_def np_linalg_inv_def metric_g_rd_exact g_inverse_def np_inv_def
      Let_def)

lemma metric_g_rd_det:
  assumes "metric_g_rd r p ! 0 ! 1 = - 1" "r 0 = 0" "epsilon p = 0"
  shows "det (metric_g_rd r p) = 0"
proof -
  from assms(1) have a: "r (r (- lambda_phi_coupling_rd r * Lambda p) * Phi p) = - 1"
    by (simp add: metric_g_rd_explicit)
  show ?thesis
    unfolding metric_g_rd_explicit a assms(3) det6_sparse
    by (simp add: assms(2))
qed

lemma g_inverse_rd_singular:
  assumes "metric_g_rd r p ! 0 ! 1 = - 1" "r 0 = 0" "epsilon p = 0"
  shows "g_inverse_rd r lib p = Inl LinAlgError"
  by (simp add: g_inverse_rd_def np_linalg_inv_def metric_g_rd_det [OF assms])

lemma binary64_zero: "binary64 0 = 0"
  by (simp add: binary64_def)

lemma binary64_coupling: "lambda_phi_coupling_rd binary64 = 4900895927498053 / 2 ^ 51"
  unfolding lambda_phi_coupling_rd_def binary64_LAMBDA_PHI
  using binary64_eval [of "6577871165532414 / 2 ^ 78 * 10 ^ 8" 51 4900895927498053]
  by simp

lemma coupling_entry:
  "metric_g_rd r p ! 0 ! 1 = r (r (- lambda_phi_coupling_rd r * Lambda p) * Phi p)"
  by (simp add: metric_g_rd_explicit)

text \<open>
  C2, as the code has it. \<open>g_inverse\<close> has no fallback: it is \<^verbatim>\<open>np.linalg.inv\<close> on the
  matrix that \<open>g\<close> computed, and when the inversion fails the caller gets LinAlgError. It
  fails at every point at which the computed entry \<open>g[0,1]\<close> is exactly \<open>-1.0\<close> while
  \<open>\<epsilon> = 0\<close>: rows 0 and 1 of the computed matrix are then opposite to each other, its
  determinant is zero, and the factorisation meets the pivot \<open>1 - 1 = 0\<close> without any
  rounding. This holds whatever the library does on the matrices that are not exactly
  singular.
\<close>

theorem g_inverse_has_no_fallback:
  assumes "metric_g_rd binary64 p ! 0 ! 1 = - 1" "epsilon p = 0"
  shows "det (metric_g_rd binary64 p) = 0 \<and> g_inverse_rd binary64 lib p = Inl LinAlgError"
  using metric_g_rd_det [OF assms(1) binary64_zero assms(2)]
    g_inverse_rd_singular [OF assms(1) binary64_zero assms(2)]
  by simp

text \<open>
  Such a point: \<open>\<Lambda> = 0.9189339447307179\<close> (the double \<open>4138510571067361 / 2\<^sup>5\<^sup>2\<close>),
  \<open>\<Phi> = 0.5\<close>, \<open>\<epsilon> = 0\<close>. The coupling constant is the double \<open>4900895927498053 / 2\<^sup>5\<^sup>1\<close>, its
  product with \<open>\<Lambda>\<close> rounds to \<open>2\<close>, and \<open>2 * 0.5 = 1\<close>.
\<close>

theorem g_inverse_has_no_fallback_witness:
  "in_domain (make_point (4138510571067361 / 4503599627370496) (1 / 2) (1 / 8) 0 0 (1 / 2)) \<and>
   metric_g_rd binary64
     (make_point (4138510571067361 / 4503599627370496) (1 / 2) (1 / 8) 0 0 (1 / 2)) ! 0 ! 1 = - 1 \<and>
   epsilon (make_point (4138510571067361 / 4503599627370496) (1 / 2) (1 / 8) 0 0 (1 / 2)) = 0 \<and>
   g_inverse_rd binary64 np_inv
     (make_point (4138510571067361 / 4503599627370496) (1 / 2) (1 / 8) 0 0 (1 / 2)) =
     Inl LinAlgError"
proof -
  let ?p = "make_point (4138510571067361 / 4503599627370496) (1 / 2) (1 / 8) 0 0 (1 / 2)"
  have x: "binary64 (- (4900895927498053 / 2 ^ 51) * (4138510571067361 / 4503599627370496)) = - 2"
    using binary64_eval [of "- (4900895927498053 / 2 ^ 51) * (4138510571067361 / 4503599627370496)"
        51 "- 4503599627370496"]
    by simp
  have y: "binary64 (- 2 * (1 / 2)) = - 1"
    using binary64_eval [of "- 2 * (1 / 2)" 52 "- 4503599627370496"] by simp
  have l: "Lambda ?p = 4138510571067361 / 4503599627370496"
    and f: "Phi ?p = 1 / 2" and e: "epsilon ?p = 0"
    by (simp_all add: make_point_fields clip_def)
  have a: "metric_g_rd binary64 ?p ! 0 ! 1 = - 1"
    unfolding coupling_entry binary64_coupling l f x y ..
  show ?thesis
    using a e g_inverse_has_no_fallback [OF a e, of np_inv] in_domain_make_point by simp
qed

text \<open>
  C2 as stated fails: at the valid point \<open>\<Lambda> = 0.9999281226667223\<close>, \<open>\<Phi> = 0.4595\<close>,
  \<open>\<Gamma> = 0.1\<close>, \<open>\<tau> = \<epsilon> = \<psi> = 0\<close> (below as the exact values of these doubles) the product
  \<open>2.176435 * \<Lambda> * \<Phi>\<close> rounds to \<open>1.0\<close>, the computed matrix is singular and the inversion
  raises LinAlgError.
\<close>

theorem g_inverse_raises_at_singular_point:
  "in_domain (make_point (2251637960319565 / 2251799813685248)
                (2069404028776743 / 4503599627370496)
                (3602879701896397 / 36028797018963968) 0 0 0) \<and>
   g_inverse_rd binary64 np_inv
     (make_point (2251637960319565 / 2251799813685248)
        (2069404028776743 / 4503599627370496)
        (3602879701896397 / 36028797018963968) 0 0 0) = Inl LinAlgError"
proof -
  let ?p = "make_point (2251637960319565 / 2251799813685248)
                (2069404028776743 / 4503599627370496)
                (3602879701896397 / 36028797018963968) 0 0 0"
  have x: "binary64 (- (4900895927498053 / 2 ^ 51) * (2251637960319565 / 2251799813685248)) =
      - (4900543664168113 / 2 ^ 51)"
    using binary64_eval [of "- (4900895927498053 / 2 ^ 51) * (2251637960319565 / 2251799813685248)"
        51 "- 4900543664168113"]
    by simp
  have y: "binary64 (- (4900543664168113 / 2 ^ 51) * (2069404028776743 / 4503599627370496)) = - 1"
    using binary64_eval [of "- (4900543664168113 / 2 ^ 51) * (2069404028776743 / 4503599627370496)"
        52 "- 4503599627370496"]
    by simp
  have l: "Lambda ?p = 2251637960319565 / 2251799813685248"
    and f: "Phi ?p = 2069404028776743 / 4503599627370496" and e: "epsilon ?p = 0"
    by (simp_all add: make_point_fields clip_def)
  have a: "metric_g_rd binary64 ?p ! 0 ! 1 = - 1"
    unfolding coupling_entry binary64_coupling l f x y ..
  show ?thesis
    using g_inverse_rd_singular [OF a binary64_zero e] in_domain_make_point by simp
qed

subsection \<open>Integration at rest\<close>

lemma length_six:
  "length x = 6 \<Longrightarrow> \<exists>a b c d e f. x = [a, b, c, d, e, f]"
  by (auto simp add: length_Suc_conv eval_nat_numeral)

lemma length_ge_six:
  "6 \<le> length x \<Longrightarrow> \<exists>a b c d e f r. x = a # b # c # d # e # f # r"
  by (auto simp add: Suc_le_length_iff eval_nat_numeral)

lemma clamp_state_cons:
  "clamp_state (a # b # c # d # e # f # r) =
     clip a (1 / 1000) 1 # clip b (1 / 1000) 1 # clip c (1 / 1000) 1 # d #
     clip e 0 1 # clip f 0 1 # r"
  by (simp add: clamp_state_def)

lemma length_clamp_state: "length (clamp_state x) = length x"
  by (simp add: clamp_state_def)

lemma clamp_state_idem: "6 \<le> length x \<Longrightarrow> clamp_state (clamp_state x) = clamp_state x"
proof -
  assume "6 \<le> length x"
  then obtain a b c d e f r where "x = a # b # c # d # e # f # r"
    using length_ge_six by blast
  then show ?thesis by (simp add: clamp_state_cons clip_def)
qed

lemma from_vector_clamp_state:
  assumes "from_vector (clamp_state y) = Inr q"
  shows "1 / 1000 \<le> Lambda q \<and> Lambda q \<le> 1 \<and> 1 / 1000 \<le> Phi q \<and> Phi q \<le> 1 \<and>
         1 / 1000 \<le> Gamma q \<and> Gamma q \<le> 1 \<and>
         0 \<le> epsilon q \<and> epsilon q \<le> 1 \<and> 0 \<le> psi q \<and> psi q \<le> 1"
proof -
  from assms have "6 \<le> length y"
    by (simp add: from_vector_def length_clamp_state split: if_splits)
  then obtain a b c d e f r where "y = a # b # c # d # e # f # r"
    using length_ge_six by blast
  with assms show ?thesis
    by (auto simp add: clamp_state_cons from_vector_def make_point_fields clip_def)
qed

lemma vscale_zero6: "vscale c [0, 0, 0, 0, 0, 0] = [0, 0, 0, 0, 0, 0]"
  by (simp add: vscale_def)

lemma vadd_zero6: "length x = 6 \<Longrightarrow> vadd x [0, 0, 0, 0, 0, 0] = x"
  using length_six [of x] by (auto simp add: vadd_def)

lemma rk4_at_rest:
  assumes "length x = 6" "from_vector x = Inr p" "g_inverse p = Inr m"
  shows "rk4_step dt x [0, 0, 0, 0, 0, 0] = Inr (clamp_state x, [0, 0, 0, 0, 0, 0])"
proof -
  have acc: "geodesic_acceleration x [0, 0, 0, 0, 0, 0] = Inr [0, 0, 0, 0, 0, 0]"
    using acceleration_at_rest [OF assms(2,3)] .
  have z: "vadd [0, 0, 0, 0, 0, 0] [0, 0, 0, 0, 0, 0] = [0, 0, 0, 0, 0, 0]"
    by (simp add: vadd_def)
  show ?thesis
    by (simp add: rk4_step_def Let_def vscale_zero6 z vadd_zero6 [OF assms(1)] acc bind_res_def)
qed

lemma integrate_loop_at_rest:
  assumes "length x = 6" "clamp_state x = x" "from_vector x = Inr p" "g_inverse p = Inr m"
  shows "integrate_loop n dt x [0, 0, 0, 0, 0, 0] pth = Inr (pth @ replicate n x)"
proof (induction n arbitrary: pth)
  case 0
  then show ?case by simp
next
  case (Suc n)
  show ?case
    by (simp add: rk4_at_rest [OF assms(1,3,4)] assms(2) bind_res_def Suc replicate_app_Cons_same)
qed

subsection \<open>The shape of a solved path\<close>

lemma sequence_res_map:
  "sequence_res (map f xs) = Inr ys \<Longrightarrow>
     length ys = length xs \<and> (\<forall>i<length xs. f (xs ! i) = Inr (ys ! i))"
proof (induction xs arbitrary: ys)
  case Nil
  then show ?case by simp
next
  case (Cons x xs)
  from Cons.prems obtain y zs where y: "f x = Inr y" and zs: "sequence_res (map f xs) = Inr zs"
    and ys: "ys = y # zs"
    by (auto simp add: bind_res_def split: sum.splits)
  from Cons.IH [OF zs] show ?case
    using y ys by (auto simp add: nth_Cons split: nat.splits)
qed

lemma integrate_loop_shape:
  "integrate_loop n dt x v pth = Inr pth' \<Longrightarrow>
     length pth' = length pth + n \<and> take (length pth) pth' = pth \<and>
     (\<forall>i. length pth \<le> i \<and> i < length pth' \<longrightarrow> (\<exists>y. pth' ! i = clamp_state y))"
proof (induction n arbitrary: x v pth)
  case 0
  then show ?case by auto
next
  case (Suc n)
  from Suc.prems obtain x' v' where r: "rk4_step dt x v = Inr (x', v')"
    and l: "integrate_loop n dt x' v' (pth @ [x']) = Inr pth'"
    by (auto simp add: bind_res_def split: sum.splits)
  from r obtain y where x': "x' = clamp_state y"
    by (auto simp add: rk4_step_def Let_def bind_res_def split: sum.splits)
  from Suc.IH [OF l] have len: "length pth' = length pth + Suc n"
    and tk: "take (Suc (length pth)) pth' = pth @ [x']"
    and cl: "\<forall>i. Suc (length pth) \<le> i \<and> i < length pth' \<longrightarrow> (\<exists>y. pth' ! i = clamp_state y)"
    by simp_all
  have "take (length pth) pth' = take (length pth) (take (Suc (length pth)) pth')"
    by (simp add: min_def)
  with tk have tk': "take (length pth) pth' = pth"
    by simp
  have "pth' ! length pth = take (Suc (length pth)) pth' ! length pth"
    by simp
  with tk have "pth' ! length pth = x'"
    by simp
  with x' cl have "\<forall>i. length pth \<le> i \<and> i < length pth' \<longrightarrow> (\<exists>y. pth' ! i = clamp_state y)"
    by (metis Suc_leI le_eq_less_or_eq)
  with len tk' show ?case by simp
qed

lemma shoot_result:
  "shoot x0 xf n dt k v pth = Inr (po, c) \<Longrightarrow>
     (po = pth \<and> \<not> c) \<or>
     (\<exists>v' p. po = Some p \<and> integrate x0 v' n dt = Inr p \<and>
        (c \<longleftrightarrow> norm2 (vsub xf (last p)) < 1 / 10 ^ 4))"
proof (induction k arbitrary: v pth)
  case 0
  then show ?case by simp
next
  case (Suc k)
  from Suc.prems obtain p where p: "integrate x0 v n dt = Inr p"
    by (auto simp add: bind_res_def split: sum.splits)
  show ?case
  proof (cases "norm2 (vsub xf (last p)) < 1 / 10 ^ 4")
    case True
    with Suc.prems p show ?thesis
      by (auto simp add: bind_res_def Let_def)
  next
    case False
    with Suc.prems p
    have "shoot x0 xf n dt k (vadd v (vscale 0.5 (vsub xf (last p)))) (Some p) = Inr (po, c)"
      by (simp add: bind_res_def Let_def)
    from Suc.IH [OF this] False p show ?thesis
      by auto
  qed
qed

lemma shoot_None:
  "shoot x0 xf n dt k v None = Inr (None, c) \<Longrightarrow> k = 0"
  using shoot_result [of x0 xf n dt k v None None c]
  by (cases k) (auto simp add: bind_res_def Let_def split: sum.splits if_splits dest: shoot_result)

lemma to_vector_length: "length (to_vector p) = 6"
  by (simp add: to_vector_def)

lemma solve_Inr:
  assumes "solve start end num_steps max_iterations = Inr pts"
  shows "num_steps \<noteq> 0 \<and> 0 < max_iterations \<and>
         (\<exists>ps v c. integrate (to_vector start) v num_steps (1 / real_of_int num_steps) = Inr ps \<and>
            solve_run start end num_steps max_iterations = Inr (Some ps, c) \<and>
            (c \<longleftrightarrow> norm2 (vsub (to_vector end) (last ps)) < 1 / 10 ^ 4) \<and>
            sequence_res (map from_vector ps) = Inr pts)"
proof -
  from assms obtain po c where run: "solve_run start end num_steps max_iterations = Inr (po, c)"
    by (auto simp add: solve_def bind_res_def split: sum.splits)
  with assms obtain ps where po: "po = Some ps" and sq: "sequence_res (map from_vector ps) = Inr pts"
    by (auto simp add: solve_def bind_res_def split: option.splits)
  from run have n0: "num_steps \<noteq> 0"
    by (auto simp add: solve_run_def Let_def split: if_splits)
  with run po have sh: "shoot (to_vector start) (to_vector end) num_steps (1 / real_of_int num_steps)
      (nat max_iterations) (vsub (to_vector end) (to_vector start)) None = Inr (Some ps, c)"
    by (simp add: solve_run_def Let_def)
  have m0: "0 < max_iterations"
  proof (rule ccontr)
    assume "\<not> 0 < max_iterations"
    then have "nat max_iterations = 0" by simp
    with sh show False by simp
  qed
  from shoot_result [OF sh] obtain v where
    "integrate (to_vector start) v num_steps (1 / real_of_int num_steps) = Inr ps"
    "c \<longleftrightarrow> norm2 (vsub (to_vector end) (last ps)) < 1 / 10 ^ 4"
    by auto
  with n0 m0 run po sq show ?thesis by blast
qed

lemma solve_shape:
  assumes "in_domain start" "solve start end num_steps max_iterations = Inr pts"
  shows "num_steps \<noteq> 0 \<and> 0 < max_iterations \<and> length pts = nat num_steps + 1 \<and>
         pts ! 0 = start \<and>
         (\<forall>i. 1 \<le> i \<and> i < length pts \<longrightarrow>
            1 / 1000 \<le> Lambda (pts ! i) \<and> Lambda (pts ! i) \<le> 1 \<and>
            1 / 1000 \<le> Phi (pts ! i) \<and> Phi (pts ! i) \<le> 1 \<and>
            1 / 1000 \<le> Gamma (pts ! i) \<and> Gamma (pts ! i) \<le> 1 \<and>
            0 \<le> epsilon (pts ! i) \<and> epsilon (pts ! i) \<le> 1 \<and>
            0 \<le> psi (pts ! i) \<and> psi (pts ! i) \<le> 1)"
proof -
  from solve_Inr [OF assms(2)] obtain ps v where n0: "num_steps \<noteq> 0" and m0: "0 < max_iterations"
    and int: "integrate (to_vector start) v num_steps (1 / real_of_int num_steps) = Inr ps"
    and sq: "sequence_res (map from_vector ps) = Inr pts"
    by blast
  from int have "integrate_loop (nat num_steps) (1 / real_of_int num_steps) (to_vector start) v
      [to_vector start] = Inr ps"
    by (simp add: integrate_def)
  from integrate_loop_shape [OF this]
  have len: "length ps = nat num_steps + 1" and hd: "take 1 ps = [to_vector start]"
    and cl: "\<forall>i. 1 \<le> i \<and> i < length ps \<longrightarrow> (\<exists>y. ps ! i = clamp_state y)"
    by simp_all
  from sequence_res_map [OF sq]
  have lp: "length pts = length ps" and fv: "\<forall>i<length ps. from_vector (ps ! i) = Inr (pts ! i)"
    by simp_all
  from hd len have "ps ! 0 = to_vector start"
    by (metis nth_Cons_0 nth_take zero_less_one)
  with fv len have "from_vector (to_vector start) = Inr (pts ! 0)"
    by (metis add_gr_0 zero_less_one)
  with from_to_vector [OF assms(1)] have first: "pts ! 0 = start" by simp
  have "\<And>i. 1 \<le> i \<Longrightarrow> i < length pts \<Longrightarrow>
            1 / 1000 \<le> Lambda (pts ! i) \<and> Lambda (pts ! i) \<le> 1 \<and>
            1 / 1000 \<le> Phi (pts ! i) \<and> Phi (pts ! i) \<le> 1 \<and>
            1 / 1000 \<le> Gamma (pts ! i) \<and> Gamma (pts ! i) \<le> 1 \<and>
            0 \<le> epsilon (pts ! i) \<and> epsilon (pts ! i) \<le> 1 \<and>
            0 \<le> psi (pts ! i) \<and> psi (pts ! i) \<le> 1"
  proof -
    fix i assume i: "1 \<le> i" "i < length pts"
    with cl lp obtain y where "ps ! i = clamp_state y" by auto
    with fv i lp have "from_vector (clamp_state y) = Inr (pts ! i)" by auto
    then show "1 / 1000 \<le> Lambda (pts ! i) \<and> Lambda (pts ! i) \<le> 1 \<and>
            1 / 1000 \<le> Phi (pts ! i) \<and> Phi (pts ! i) \<le> 1 \<and>
            1 / 1000 \<le> Gamma (pts ! i) \<and> Gamma (pts ! i) \<le> 1 \<and>
            0 \<le> epsilon (pts ! i) \<and> epsilon (pts ! i) \<le> 1 \<and>
            0 \<le> psi (pts ! i) \<and> psi (pts ! i) \<le> 1"
      by (rule from_vector_clamp_state)
  qed
  with n0 m0 len lp first show ?thesis by simp
qed

lemma norm2_less_iff: "norm2 a < 1 / 10 ^ 4 \<longleftrightarrow> sum_list (map (\<lambda>x. x * x) a) < 1 / 10 ^ 8"
proof -
  have "sqrt (1 / 10 ^ 8) = 1 / 10 ^ 4"
    by (rule real_sqrt_unique) (simp_all add: power2_eq_square)
  then show ?thesis
    unfolding norm2_def by (metis real_sqrt_less_iff)
qed

lemma sequence_res_replicate:
  "sequence_res (replicate k (Inr y)) = Inr (replicate k y)"
  by (induction k) (simp_all add: bind_res_def)

lemma integrate_at_rest:
  assumes "length x0 = 6" "from_vector x0 = Inr p" "g_inverse p = Inr m"
    "from_vector (clamp_state x0) = Inr p1" "g_inverse p1 = Inr m1" "1 \<le> n"
  shows "integrate x0 [0, 0, 0, 0, 0, 0] n dt = Inr (x0 # replicate (nat n) (clamp_state x0))"
proof -
  from assms(6) obtain k where k: "nat n = Suc k"
    by (metis Suc_pred' zero_less_nat_eq int_one_le_iff_zero_less)
  have l1: "length (clamp_state x0) = 6"
    by (simp add: length_clamp_state assms(1))
  have idem: "clamp_state (clamp_state x0) = clamp_state x0"
    by (rule clamp_state_idem) (simp add: assms(1))
  show ?thesis
    unfolding integrate_def k
    by (simp add: rk4_at_rest [OF assms(1,2,3)] bind_res_def
        integrate_loop_at_rest [OF l1 idem assms(4,5)] replicate_app_Cons_same)
qed

lemma solve_at_rest:
  assumes "in_domain p" "g_inverse p = Inr m"
    "from_vector (clamp_state (to_vector p)) = Inr p1" "g_inverse p1 = Inr m1"
    "norm2 (vsub (to_vector p) (clamp_state (to_vector p))) < 1 / 10 ^ 4"
    "1 \<le> n" "1 \<le> k"
  shows "solve_run p p n k =
           Inr (Some (to_vector p # replicate (nat n) (clamp_state (to_vector p))), True) \<and>
         solve p p n k = Inr (p # replicate (nat n) p1)"
proof -
  have z: "vsub (to_vector p) (to_vector p) = [0, 0, 0, 0, 0, 0]"
    by (simp add: vsub_def to_vector_def)
  from assms(7) obtain j where j: "nat k = Suc j"
    by (metis Suc_pred' zero_less_nat_eq int_one_le_iff_zero_less)
  from assms(6) have n: "0 < nat n" "n \<noteq> 0" by simp_all
  note int = integrate_at_rest [OF to_vector_length from_to_vector [OF assms(1)] assms(2,3,4,6)]
  have run: "solve_run p p n k =
           Inr (Some (to_vector p # replicate (nat n) (clamp_state (to_vector p))), True)"
    using n assms(5) by (simp add: solve_run_def Let_def z j int bind_res_def)
  show ?thesis
    using run
    by (simp add: solve_def bind_res_def from_to_vector [OF assms(1)]
        assms(3) sequence_res_replicate)
qed





subsection \<open>What the solver returns\<close>

lemma integrate_no_steps: "n \<le> 0 \<Longrightarrow> integrate x0 v n dt = Inr [x0]"
  by (simp add: integrate_def)

lemma shoot_no_steps:
  assumes "n \<le> 0" "\<not> norm2 (vsub xf x0) < 1 / 10 ^ 4"
  shows "shoot x0 xf n dt (Suc k) v pth = Inr (Some [x0], False)"
proof (induction k arbitrary: v pth)
  case 0
  show ?case using assms by (simp add: integrate_no_steps bind_res_def Let_def)
next
  case (Suc k)
  show ?case
    using assms Suc [of "vadd v (vscale 0.5 (vsub xf x0))" "Some [x0]"]
    by (simp add: integrate_no_steps bind_res_def Let_def)
qed

lemma shoot_no_steps_converged:
  assumes "n \<le> 0" "norm2 (vsub xf x0) < 1 / 10 ^ 4"
  shows "shoot x0 xf n dt (Suc k) v pth = Inr (Some [x0], True)"
  using assms by (simp add: integrate_no_steps bind_res_def Let_def)

lemma shoot_all_miss:
  assumes "\<forall>i<k. trial_miss x0 xf n dt (j + i)"
  shows "shoot x0 xf n dt k (trial_velocity x0 xf n dt j) pth =
           (if k = 0 then Inr (pth, False)
            else bind_res (trial_path x0 xf n dt (j + k - 1)) (\<lambda>ps. Inr (Some ps, False)))"
  using assms
proof (induction k arbitrary: j pth)
  case 0
  show ?case by simp
next
  case (Suc k)
  from Suc.prems have "trial_miss x0 xf n dt (j + 0)" by blast
  then obtain ps where ps: "integrate x0 (trial_velocity x0 xf n dt j) n dt = Inr ps"
    and miss: "\<not> norm2 (vsub xf (last ps)) < 1 / 10 ^ 4"
    by (auto simp add: trial_miss_def trial_path_def split: sum.splits)
  have nxt: "vadd (trial_velocity x0 xf n dt j) (vscale 0.5 (vsub xf (last ps))) =
      trial_velocity x0 xf n dt (Suc j)"
    by (simp add: ps Let_def)
  have "\<forall>i<k. trial_miss x0 xf n dt (Suc j + i)"
    using Suc.prems by (metis Suc_less_eq add_Suc_shift)
  note IH = Suc.IH [OF this, of "Some ps"]
  have "shoot x0 xf n dt (Suc k) (trial_velocity x0 xf n dt j) pth =
      shoot x0 xf n dt k (trial_velocity x0 xf n dt (Suc j)) (Some ps)"
    using ps miss nxt by (simp add: bind_res_def Let_def del: trial_velocity.simps)
  also have "\<dots> = bind_res (trial_path x0 xf n dt (j + Suc k - 1)) (\<lambda>ps. Inr (Some ps, False))"
  proof (cases k)
    case 0
    then show ?thesis using IH ps by (simp add: trial_path_def bind_res_def del: trial_velocity.simps)
  next
    case (Suc k')
    then show ?thesis using IH by (simp del: trial_velocity.simps)
  qed
  finally show ?case by simp
qed

lemma shoot_first_stop:
  assumes "i < k" "\<forall>i'<i. trial_miss x0 xf n dt (j + i')" "\<not> trial_miss x0 xf n dt (j + i)"
  shows "shoot x0 xf n dt k (trial_velocity x0 xf n dt j) pth =
           bind_res (trial_path x0 xf n dt (j + i)) (\<lambda>ps. Inr (Some ps, True))"
  using assms
proof (induction i arbitrary: j k pth)
  case 0
  then obtain k' where k: "k = Suc k'" by (cases k) auto
  from 0(3) show ?case
    unfolding k
    by (auto simp add: trial_miss_def trial_path_def bind_res_def Let_def split: sum.splits)
next
  case (Suc i)
  then obtain k' where k: "k = Suc k'" and ik: "i < k'" by (cases k) auto
  from Suc.prems(2) have "trial_miss x0 xf n dt (j + 0)" by blast
  then obtain ps where ps: "integrate x0 (trial_velocity x0 xf n dt j) n dt = Inr ps"
    and miss: "\<not> norm2 (vsub xf (last ps)) < 1 / 10 ^ 4"
    by (auto simp add: trial_miss_def trial_path_def split: sum.splits)
  have nxt: "vadd (trial_velocity x0 xf n dt j) (vscale 0.5 (vsub xf (last ps))) =
      trial_velocity x0 xf n dt (Suc j)"
    by (simp add: ps Let_def)
  have a: "\<forall>i'<i. trial_miss x0 xf n dt (Suc j + i')"
    using Suc.prems(2) by (metis Suc_less_eq add_Suc_shift)
  have b: "\<not> trial_miss x0 xf n dt (Suc j + i)"
    using Suc.prems(3) by simp
  note IH = Suc.IH [OF ik a b, of "Some ps"]
  have "shoot x0 xf n dt k (trial_velocity x0 xf n dt j) pth =
      shoot x0 xf n dt k' (trial_velocity x0 xf n dt (Suc j)) (Some ps)"
    unfolding k using ps miss nxt by (simp add: bind_res_def Let_def del: trial_velocity.simps)
  with IH show ?case by (simp del: trial_velocity.simps)
qed

text \<open>
  C1, as the code has it. \<open>solve\<close> hands to the caller the points of one path and nothing
  else. With a step count other than zero: when the budget is exhausted, that is when each
  of the \<open>max_iterations\<close> trials was integrated and missed the target by \<open>1e-4\<close> or more,
  the result is the path of the last trial, number \<open>max_iterations - 1\<close>; when trial \<open>j\<close> is
  the first that does not miss, the loop stops there and the result is the path of trial
  \<open>j\<close> (or the exception its integration raised). In both cases the returned value is
  computed from the path in the same way, by \<open>from_vector\<close> on each of its points: the
  boolean of \<open>solve_run\<close> is not part of it. With a budget of zero or less no trial is made
  and the source fails with UnboundLocalError.
\<close>

theorem solve_returns_only_the_path:
  assumes "n \<noteq> 0"
  shows
   "(k \<le> 0 \<longrightarrow>
       solve_run start end n k = Inr (None, False) \<and>
       solve start end n k = Inl UnboundLocalError) \<and>
    (0 < k \<and> (\<forall>j<nat k. trial_miss (to_vector start) (to_vector end) n (1 / real_of_int n) j) \<longrightarrow>
       solve_run start end n k =
         bind_res (trial_path (to_vector start) (to_vector end) n (1 / real_of_int n) (nat k - 1))
           (\<lambda>ps. Inr (Some ps, False)) \<and>
       solve start end n k =
         bind_res (trial_path (to_vector start) (to_vector end) n (1 / real_of_int n) (nat k - 1))
           (\<lambda>ps. sequence_res (map from_vector ps))) \<and>
    (j < nat k \<and> (\<forall>i<j. trial_miss (to_vector start) (to_vector end) n (1 / real_of_int n) i) \<and>
       \<not> trial_miss (to_vector start) (to_vector end) n (1 / real_of_int n) j \<longrightarrow>
       solve_run start end n k =
         bind_res (trial_path (to_vector start) (to_vector end) n (1 / real_of_int n) j)
           (\<lambda>ps. Inr (Some ps, True)) \<and>
       solve start end n k =
         bind_res (trial_path (to_vector start) (to_vector end) n (1 / real_of_int n) j)
           (\<lambda>ps. sequence_res (map from_vector ps)))"
proof (intro conjI impI)
  assume "k \<le> 0"
  then have "nat k = 0" by simp
  then show "solve_run start end n k = Inr (None, False)"
    using assms by (simp add: solve_run_def Let_def)
  then show "solve start end n k = Inl UnboundLocalError"
    by (simp add: solve_def bind_res_def)
next
  assume a: "0 < k \<and> (\<forall>j<nat k. trial_miss (to_vector start) (to_vector end) n (1 / real_of_int n) j)"
  then have k: "nat k \<noteq> 0" by simp
  from a have "\<forall>i<nat k. trial_miss (to_vector start) (to_vector end) n (1 / real_of_int n) (0 + i)"
    by simp
  from shoot_all_miss [OF this, of None] k
  show run: "solve_run start end n k =
         bind_res (trial_path (to_vector start) (to_vector end) n (1 / real_of_int n) (nat k - 1))
           (\<lambda>ps. Inr (Some ps, False))"
    using assms by (simp add: solve_run_def Let_def)
  show "solve start end n k =
         bind_res (trial_path (to_vector start) (to_vector end) n (1 / real_of_int n) (nat k - 1))
           (\<lambda>ps. sequence_res (map from_vector ps))"
    unfolding solve_def run by (simp add: bind_res_def split: sum.splits)
next
  assume a: "j < nat k \<and> (\<forall>i<j. trial_miss (to_vector start) (to_vector end) n (1 / real_of_int n) i) \<and>
       \<not> trial_miss (to_vector start) (to_vector end) n (1 / real_of_int n) j"
  then have "j < nat k"
    "\<forall>i<j. trial_miss (to_vector start) (to_vector end) n (1 / real_of_int n) (0 + i)"
    "\<not> trial_miss (to_vector start) (to_vector end) n (1 / real_of_int n) (0 + j)"
    by simp_all
  from shoot_first_stop [OF this, of None]
  show run: "solve_run start end n k =
         bind_res (trial_path (to_vector start) (to_vector end) n (1 / real_of_int n) j)
           (\<lambda>ps. Inr (Some ps, True))"
    using assms by (simp add: solve_run_def Let_def)
  show "solve start end n k =
         bind_res (trial_path (to_vector start) (to_vector end) n (1 / real_of_int n) j)
           (\<lambda>ps. sequence_res (map from_vector ps))"
    unfolding solve_def run by (simp add: bind_res_def split: sum.splits)
qed


lemma trial_path_at_rest:
  assumes "in_domain p" "g_inverse p = Inr m"
    "from_vector (clamp_state (to_vector p)) = Inr p1" "g_inverse p1 = Inr m1" "1 \<le> n"
  shows "trial_path (to_vector p) (to_vector p) n dt 0 =
           Inr (to_vector p # replicate (nat n) (clamp_state (to_vector p)))"
proof -
  have z: "vsub (to_vector p) (to_vector p) = [0, 0, 0, 0, 0, 0]"
    by (simp add: vsub_def to_vector_def)
  show ?thesis
    using integrate_at_rest [OF to_vector_length from_to_vector [OF assms(1)] assms(2,3,4,5)]
    by (simp add: trial_path_def z)
qed

theorem solve_returns_only_the_path_witness:
  "(1 :: int) \<noteq> 0 \<and>
   solve (make_point 0 (1 / 2) (1 / 10) 0 (1 / 2) (9 / 10))
         (make_point 0 (1 / 2) (1 / 10) 0 (1 / 2) (9 / 10)) 1 0 = Inl UnboundLocalError \<and>
   trial_miss (to_vector (make_point 0 (1 / 2) (1 / 10) 0 (1 / 2) (9 / 10)))
              (to_vector (make_point 0 (1 / 2) (1 / 10) 0 (1 / 2) (9 / 10))) 1 1 0 \<and>
   solve_run (make_point 0 (1 / 2) (1 / 10) 0 (1 / 2) (9 / 10))
             (make_point 0 (1 / 2) (1 / 10) 0 (1 / 2) (9 / 10)) 1 1 =
     Inr (Some [[0, 1 / 2, 1 / 10, 0, 1 / 2, 9 / 10],
                [1 / 1000, 1 / 2, 1 / 10, 0, 1 / 2, 9 / 10]], False) \<and>
   solve (make_point 0 (1 / 2) (1 / 10) 0 (1 / 2) (9 / 10))
         (make_point 0 (1 / 2) (1 / 10) 0 (1 / 2) (9 / 10)) 1 1 =
     Inr [make_point 0 (1 / 2) (1 / 10) 0 (1 / 2) (9 / 10),
          make_point (1 / 1000) (1 / 2) (1 / 10) 0 (1 / 2) (9 / 10)] \<and>
   \<not> trial_miss (to_vector (make_point (1 / 2) (1 / 2) (1 / 10) 0 (1 / 2) (9 / 10)))
                (to_vector (make_point (1 / 2) (1 / 2) (1 / 10) 0 (1 / 2) (9 / 10))) 1 1 0 \<and>
   solve_run (make_point (1 / 2) (1 / 2) (1 / 10) 0 (1 / 2) (9 / 10))
             (make_point (1 / 2) (1 / 2) (1 / 10) 0 (1 / 2) (9 / 10)) 1 50 =
     Inr (Some [[1 / 2, 1 / 2, 1 / 10, 0, 1 / 2, 9 / 10],
                [1 / 2, 1 / 2, 1 / 10, 0, 1 / 2, 9 / 10]], True)"
proof -
  let ?p = "make_point 0 (1 / 2) (1 / 10) 0 (1 / 2) (9 / 10)"
  let ?q = "make_point (1 / 1000) (1 / 2) (1 / 10) 0 (1 / 2) (9 / 10)"
  let ?s = "make_point (1 / 2) (1 / 2) (1 / 10) 0 (1 / 2) (9 / 10)"
  have d: "in_domain ?p" and dq: "in_domain ?q" and ds: "in_domain ?s"
    by (rule in_domain_make_point)+
  have ns: "\<not> metric_singular ?p"
    by (simp add: metric_singular_def make_point_fields clip_def lambda_phi_coupling_def
        LAMBDA_PHI_def epsilon_lambda_coupling_def CHI_PC_def power2_eq_square)
  have nsq: "\<not> metric_singular ?q"
    by (simp add: metric_singular_def make_point_fields clip_def lambda_phi_coupling_def
        LAMBDA_PHI_def epsilon_lambda_coupling_def CHI_PC_def power2_eq_square)
  have nss: "\<not> metric_singular ?s"
    by (simp add: metric_singular_def make_point_fields clip_def lambda_phi_coupling_def
        LAMBDA_PHI_def epsilon_lambda_coupling_def CHI_PC_def power2_eq_square)
  obtain m where m: "g_inverse ?p = Inr m"
    using g_inverse_regular [OF d ns] by blast
  obtain mq where mq: "g_inverse ?q = Inr mq"
    using g_inverse_regular [OF dq nsq] by blast
  obtain ms where ms: "g_inverse ?s = Inr ms"
    using g_inverse_regular [OF ds nss] by blast
  have vp: "to_vector ?p = [0, 1 / 2, 1 / 10, 0, 1 / 2, 9 / 10]"
    and vs: "to_vector ?s = [1 / 2, 1 / 2, 1 / 10, 0, 1 / 2, 9 / 10]"
    by (simp_all add: to_vector_def make_point_fields clip_def)
  have cp: "clamp_state (to_vector ?p) = [1 / 1000, 1 / 2, 1 / 10, 0, 1 / 2, 9 / 10]"
    and cs: "clamp_state (to_vector ?s) = to_vector ?s"
    by (simp_all add: vp vs clamp_state_cons clip_def)
  have c: "from_vector (clamp_state (to_vector ?p)) = Inr ?q"
    by (simp add: to_vector_def clamp_state_cons make_point_fields clip_def from_vector_six)
  have c': "from_vector (clamp_state (to_vector ?s)) = Inr ?s"
    by (subst cs) (rule from_to_vector [OF ds])
  have e: "\<not> norm2 (vsub (to_vector ?p) (clamp_state (to_vector ?p))) < 1 / 10 ^ 4"
    by (subst norm2_less_iff) (simp add: to_vector_def clamp_state_cons make_point_fields clip_def vsub_def)
  have e': "norm2 (vsub (to_vector ?s) (clamp_state (to_vector ?s))) < 1 / 10 ^ 4"
    by (subst norm2_less_iff) (simp add: to_vector_def clamp_state_cons make_point_fields clip_def vsub_def)
  have tp: "trial_path (to_vector ?p) (to_vector ?p) 1 1 0 =
      Inr [to_vector ?p, clamp_state (to_vector ?p)]"
    using trial_path_at_rest [OF d m c mq, of 1 1] by simp
  have ts: "trial_path (to_vector ?s) (to_vector ?s) 1 1 0 =
      Inr [to_vector ?s, clamp_state (to_vector ?s)]"
    using trial_path_at_rest [OF ds ms c' ms, of 1 1] by simp
  have miss: "trial_miss (to_vector ?p) (to_vector ?p) 1 1 0"
    using e by (simp add: trial_miss_def tp)
  have hit: "\<not> trial_miss (to_vector ?s) (to_vector ?s) 1 1 0"
    using e' by (simp add: trial_miss_def ts)
  have A: "solve ?p ?p 1 0 = Inl UnboundLocalError"
    using solve_returns_only_the_path [of 1 0 ?p ?p 0] by simp
  have B: "solve_run ?p ?p 1 1 = Inr (Some [to_vector ?p, clamp_state (to_vector ?p)], False) \<and>
           solve ?p ?p 1 1 = Inr [?p, ?q]"
    using solve_returns_only_the_path [of 1 1 ?p ?p 0] miss
    by (simp add: tp bind_res_def from_to_vector [OF d] c)
  have C: "solve_run ?s ?s 1 50 = Inr (Some [to_vector ?s, clamp_state (to_vector ?s)], True)"
    using solve_returns_only_the_path [of 1 50 ?s ?s 0] hit
    by (simp add: ts bind_res_def)
  show ?thesis
    using A B C miss hit by (simp add: vp vs clamp_state_cons clip_def)
qed

text \<open>
  C1 as stated fails: the returned value carries no indication. Two calls with the default
  budget of 50, one that never gets within the tolerance and one that does at once, return
  the very same value.
\<close>

theorem unconverged_run_returns_what_a_converged_run_returns:
  "solve_run (make_point (1 / 2) (1 / 2) (1 / 10) 0 (1 / 2) (9 / 10))
             (make_point (1 / 2) (1 / 2) (1 / 10) 1 (1 / 2) (9 / 10)) (- 1) 50 =
     Inr (Some [[1 / 2, 1 / 2, 1 / 10, 0, 1 / 2, 9 / 10]], False) \<and>
   solve_run (make_point (1 / 2) (1 / 2) (1 / 10) 0 (1 / 2) (9 / 10))
             (make_point (1 / 2) (1 / 2) (1 / 10) 0 (1 / 2) (9 / 10)) (- 1) 50 =
     Inr (Some [[1 / 2, 1 / 2, 1 / 10, 0, 1 / 2, 9 / 10]], True) \<and>
   solve (make_point (1 / 2) (1 / 2) (1 / 10) 0 (1 / 2) (9 / 10))
         (make_point (1 / 2) (1 / 2) (1 / 10) 1 (1 / 2) (9 / 10)) (- 1) 50 =
   solve (make_point (1 / 2) (1 / 2) (1 / 10) 0 (1 / 2) (9 / 10))
         (make_point (1 / 2) (1 / 2) (1 / 10) 0 (1 / 2) (9 / 10)) (- 1) 50"
proof -
  let ?s = "make_point (1 / 2) (1 / 2) (1 / 10) 0 (1 / 2) (9 / 10)"
  let ?e = "make_point (1 / 2) (1 / 2) (1 / 10) 1 (1 / 2) (9 / 10)"
  have far: "\<not> norm2 (vsub (to_vector ?e) (to_vector ?s)) < 1 / 10 ^ 4"
    by (subst norm2_less_iff) (simp add: to_vector_def make_point_fields clip_def vsub_def)
  have near: "norm2 (vsub (to_vector ?s) (to_vector ?s)) < 1 / 10 ^ 4"
    by (subst norm2_less_iff) (simp add: to_vector_def make_point_fields clip_def vsub_def)
  have b: "solve_run ?s ?e (- 1) 50 = Inr (Some [to_vector ?s], False)"
    using shoot_no_steps [of "- 1" "to_vector ?e" "to_vector ?s" "- 1" 49
        "vsub (to_vector ?e) (to_vector ?s)" None, OF _ far]
    by (simp add: solve_run_def Let_def)
  have a: "solve_run ?s ?s (- 1) 50 = Inr (Some [to_vector ?s], True)"
    using shoot_no_steps_converged [of "- 1" "to_vector ?s" "to_vector ?s" "- 1" 49
        "vsub (to_vector ?s) (to_vector ?s)" None, OF _ near]
    by (simp add: solve_run_def Let_def)
  have v: "to_vector ?s = [1 / 2, 1 / 2, 1 / 10, 0, 1 / 2, 9 / 10]"
    by (simp add: to_vector_def make_point_fields clip_def)
  show ?thesis
    using a b by (simp add: solve_def bind_res_def v)
qed

subsection \<open>Stepping along a path\<close>

lemma path_index_heal: "path_index (heal a) = path_index a"
  by (simp add: heal_def Let_def)

lemma step_heal: "needs_healing (position a) \<Longrightarrow> step r z a = Inr (True, heal a)"
  by (simp add: step_def)

lemma step_converged:
  "\<not> needs_healing (position a) \<Longrightarrow> path a = [] \<or> length (path a) \<le> path_index a + 1 \<Longrightarrow>
   step r z a = Inr (False, a\<lparr>state := CONVERGED\<rparr>)"
  by (auto simp add: step_def)

lemma evolve_total:
  "length z = 6 \<Longrightarrow> \<exists>a'. evolve z a = Inr a' \<and> path_index a' = path_index a"
  by (simp add: evolve_def Let_def bind_res_def from_vector_def vadd_def vscale_def to_vector_def)

lemma step_advance:
  assumes "\<not> needs_healing (position a)" "path_index a + 1 < length (path a)" "length z = 6"
  shows "\<exists>a'. step r z a = Inr (True, a') \<and> path_index a' = path_index a + 1 \<and>
           (\<not> r < mutation_rate a \<longrightarrow> position a' = path a ! (path_index a + 1))"
proof -
  obtain d where d: "distance (position a) (path a ! (path_index a + 1)) = Inr d"
    using distance_total by blast
  let ?b = "a\<lparr>path_index := path_index a + 1, position := path a ! (path_index a + 1),
               velocity := vsub (to_vector (path a ! (path_index a + 1))) (to_vector (position a)),
               total_distance := total_distance a + d,
               trajectory := trajectory a @ [path a ! (path_index a + 1)]\<rparr>"
  from assms have ne: "path a \<noteq> []" by auto
  show ?thesis
  proof (cases "r < mutation_rate a")
    case True
    obtain c where c: "evolve z ?b = Inr c" "path_index c = path_index ?b"
      using evolve_total [OF assms(3), of ?b] by blast
    with assms ne d True show ?thesis
      by (simp add: step_def Let_def bind_res_def)
  next
    case False
    with assms ne d show ?thesis
      by (simp add: step_def Let_def bind_res_def)
  qed
qed

lemma set_target_Inr:
  assumes "set_target tgt a = Inr b" "in_domain (position a)"
  shows "path_index b = 0 \<and> state b = NAVIGATING \<and> position b = position a \<and>
         target b = Some tgt \<and> length (path b) = 51 \<and> path b ! 0 = position a"
proof -
  from assms(1) obtain pts where s: "solve (position a) tgt 50 50 = Inr pts"
    and b: "b = a\<lparr>target := Some tgt, path := pts, path_index := 0, state := NAVIGATING\<rparr>"
    by (auto simp add: set_target_def find_geodesic_def bind_res_def split: sum.splits)
  from solve_shape [OF assms(2) s] have "length pts = 51" "pts ! 0 = position a"
    by simp_all
  with b show ?thesis by simp
qed

text \<open>
  C6, as the code has it. \<open>set_target\<close> leaves the position alone, sets the index to 0 and
  stores a path of 51 points. A call of \<open>step\<close> looks at healing first: when the position
  needs healing it heals, returns true and leaves the index alone, whatever the path.
  Otherwise, with no path or with the path exhausted it sets the state to CONVERGED,
  returns false and changes nothing else, on every further call too; and with path left it
  returns true and raises the index by exactly one, the new position being the next point
  of the path unless the random mutation fired.
\<close>

theorem step_heals_first_then_follows_path:
  "(set_target tgt a = Inr b \<and> in_domain (position a) \<longrightarrow>
      path_index b = 0 \<and> state b = NAVIGATING \<and> position b = position a \<and>
      length (path b) = 51) \<and>
   (needs_healing (position a) \<longrightarrow>
      step r z a = Inr (True, heal a) \<and> path_index (heal a) = path_index a \<and>
      state (heal a) = HEALING) \<and>
   (\<not> needs_healing (position a) \<and> (path a = [] \<or> length (path a) \<le> path_index a + 1) \<longrightarrow>
      step r z a = Inr (False, a\<lparr>state := CONVERGED\<rparr>) \<and>
      step r' z' (a\<lparr>state := CONVERGED\<rparr>) = Inr (False, a\<lparr>state := CONVERGED\<rparr>)) \<and>
   (\<not> needs_healing (position a) \<and> path_index a + 1 < length (path a) \<and> length z = 6 \<longrightarrow>
      (\<exists>a'. step r z a = Inr (True, a') \<and> path_index a' = path_index a + 1 \<and>
            (\<not> r < mutation_rate a \<longrightarrow> position a' = path a ! (path_index a + 1))))"
proof -
  have "state (heal a) = HEALING"
    by (simp add: heal_def Let_def)
  moreover have "\<not> needs_healing (position a) \<and> (path a = [] \<or> length (path a) \<le> path_index a + 1) \<longrightarrow>
      step r' z' (a\<lparr>state := CONVERGED\<rparr>) = Inr (False, a\<lparr>state := CONVERGED\<rparr>)"
    using step_converged [of "a\<lparr>state := CONVERGED\<rparr>" r' z'] by auto
  ultimately show ?thesis
    using set_target_Inr [of tgt a b] step_heal [of a r z] path_index_heal [of a]
      step_converged [of a r z] step_advance [of a z r]
    by blast
qed

theorem step_heals_first_then_follows_path_witness:
  "(let p = make_point (1 / 2) (1 / 2) (1 / 10) 0 (1 / 2) (9 / 10);
        h = make_point (1 / 2) (1 / 2) (1 / 2) 0 (1 / 2) (9 / 10);
        z = [0, 0, 0, 0, 0, 0];
        b = (init_agent p)\<lparr>target := Some p, path := replicate 51 p, path_index := 0,
                            state := NAVIGATING\<rparr>
    in set_target p (init_agent p) = Inr b \<and> in_domain (position (init_agent p)) \<and>
       needs_healing (position (init_agent h)) \<and>
       step (1 / 2) z (init_agent h) = Inr (True, heal (init_agent h)) \<and>
       \<not> needs_healing (position (init_agent p)) \<and> path (init_agent p) = [] \<and>
       step (1 / 2) z (init_agent p) = Inr (False, (init_agent p)\<lparr>state := CONVERGED\<rparr>) \<and>
       \<not> needs_healing (position b) \<and> path_index b + 1 < length (path b) \<and> length z = 6 \<and>
       (\<exists>a'. step (1 / 2) z b = Inr (True, a') \<and> path_index a' = 1 \<and> position a' = p))"
proof -
  let ?p = "make_point (1 / 2) (1 / 2) (1 / 10) 0 (1 / 2) (9 / 10)"
  let ?h = "make_point (1 / 2) (1 / 2) (1 / 2) 0 (1 / 2) (9 / 10)"
  let ?z = "[0, 0, 0, 0, 0, 0 :: real]"
  let ?b = "(init_agent ?p)\<lparr>target := Some ?p, path := replicate 51 ?p, path_index := 0,
                            state := NAVIGATING\<rparr>"
  have d: "in_domain ?p" by (rule in_domain_make_point)
  have ns: "\<not> metric_singular ?p"
    by (simp add: metric_singular_def make_point_fields clip_def lambda_phi_coupling_def
        LAMBDA_PHI_def epsilon_lambda_coupling_def CHI_PC_def power2_eq_square)
  obtain m where m: "g_inverse ?p = Inr m"
    using g_inverse_regular [OF d ns] by blast
  have c: "from_vector (clamp_state (to_vector ?p)) = Inr ?p"
    by (simp add: to_vector_def clamp_state_cons make_point_fields clip_def from_vector_six)
  have e: "norm2 (vsub (to_vector ?p) (clamp_state (to_vector ?p))) < 1 / 10 ^ 4"
    by (subst norm2_less_iff)
      (simp add: to_vector_def clamp_state_cons make_point_fields clip_def vsub_def)
  have s: "solve ?p ?p 50 50 = Inr (replicate 51 ?p)"
    using solve_at_rest [OF d m c m e, of 50 50]
    by (simp add: replicate_Suc [symmetric] del: replicate_Suc)
  have st: "set_target ?p (init_agent ?p) = Inr ?b"
    by (simp add: set_target_def find_geodesic_def bind_res_def init_agent_def s)
  have dp: "in_domain (position (init_agent ?p))"
    using d by (simp add: init_agent_def)
  have nh: "needs_healing (position (init_agent ?h))"
    by (simp add: init_agent_def needs_healing_def make_point_fields clip_def)
  have nn: "\<not> needs_healing (position (init_agent ?p))" "path (init_agent ?p) = []"
    by (simp_all add: init_agent_def needs_healing_def make_point_fields clip_def)
  have nb: "\<not> needs_healing (position ?b)" "path_index ?b + 1 < length (path ?b)"
    "\<not> (1 / 2 :: real) < mutation_rate ?b" "path ?b ! (path_index ?b + 1) = ?p"
    "path_index ?b = 0"
    by (simp_all add: init_agent_def needs_healing_def make_point_fields clip_def)
  have lz: "length ?z = 6" by simp
  show ?thesis
    unfolding Let_def
    using st dp nh nn nb(1,2) lz
      step_heals_first_then_follows_path [of ?p "init_agent ?h" ?b "1 / 2" ?z "1 / 2" ?z]
      step_heals_first_then_follows_path [of ?p "init_agent ?p" ?b "1 / 2" ?z "1 / 2" ?z]
      step_heals_first_then_follows_path [of ?p ?b ?b "1 / 2" ?z "1 / 2" ?z]
    by (metis nb(3,4,5) add_0)
qed

text \<open>
  C6 as stated fails: an agent without a path whose position has \<open>\<Gamma> = 0.5\<close> does not
  become CONVERGED; \<open>step\<close> heals it, returns true and changes its position.
\<close>

theorem step_heals_without_a_path:
  "(let h = make_point (1 / 2) (1 / 2) (1 / 2) 0 (1 / 2) (9 / 10);
        a = init_agent h
    in path a = [] \<and>
       step (1 / 2) [0, 0, 0, 0, 0, 0] a = Inr (True, heal a) \<and>
       state (heal a) = HEALING \<and> position (heal a) \<noteq> position a)"
  by (simp add: Let_def step_def init_agent_def needs_healing_def make_point_fields clip_def
      heal_def CHI_PC_def)

subsection \<open>The coupled step\<close>

lemma flee_loop_Suc:
  assumes "flee_loop (Suc n) a = Inr a'"
  shows "\<exists>b. flee_loop n b = Inr a' \<and> in_domain (position b)"
proof -
  from assms obtain grad where g: "curvature_gradient (position a) = Inr grad"
    by (auto simp add: bind_res_def split: sum.splits)
  let ?v = "vadd (to_vector (position a))
              (vscale 0.05 (vscale (- 1 / (norm2 grad + 1 / 10 ^ 8)) grad))"
  from assms g obtain q where q: "from_vector ?v = Inr q"
    by (auto simp add: bind_res_def Let_def split: sum.splits)
  with assms g have "flee_loop n (a\<lparr>position := q, trajectory := trajectory a @ [q]\<rparr>) = Inr a'"
    by (simp add: bind_res_def Let_def)
  moreover have "in_domain q" using q by (rule from_vector_in_domain)
  ultimately show ?thesis by force
qed

lemma flee_loop_keeps_domain:
  "flee_loop n b = Inr a' \<Longrightarrow> in_domain (position b) \<Longrightarrow> in_domain (position a')"
proof (induction n arbitrary: b)
  case 0
  then show ?case by simp
next
  case (Suc n)
  from flee_loop_Suc [OF Suc.prems(1)] obtain c where
    "flee_loop n c = Inr a'" "in_domain (position c)" by blast
  then show ?case by (rule Suc.IH)
qed

lemma flee_three_in_domain:
  assumes "flee_high_curvature 3 a = Inr a'"
  shows "in_domain (position a')"
proof -
  from assms have "flee_loop (Suc 2) a = Inr a'"
    by (simp add: flee_high_curvature_def numeral_3_eq_3)
  from flee_loop_Suc [OF this] show ?thesis
    using flee_loop_keeps_domain by blast
qed

lemma observe_react_evolve_in_domain:
  assumes "observe_react_evolve s = Inr s1"
  shows "in_domain (position (aura s1)) \<and> in_domain (position (aiden s1))"
proof -
  from assms obtain ob a1 where "sense_curvature (aura s) = Inr (ob, a1)"
    by (auto simp add: observe_react_evolve_def bind_res_def split: sum.splits)
  with assms obtain b1 where
    r: "(if sense_needs_healing ob then Inr (force_heal (aiden s))
         else if danger_level ob > 0.5 then flee_high_curvature 3 (aiden s)
         else Inr (evolve_step AIDEN_operator (aiden s))) = Inr b1"
    and s1: "s1 = s\<lparr>aura := evolve_step AURA_operator a1, aiden := b1\<rparr>"
    by (auto simp add: observe_react_evolve_def bind_res_def split: sum.splits)
  have "in_domain (position (evolve_step AURA_operator a1))"
    by (simp add: position_evolve_step AURA_operator_def Let_def in_domain_make_point)
  moreover have "in_domain (position b1)"
  proof (cases "sense_needs_healing ob")
    case True
    with r have "b1 = heal (aiden s)" by (simp add: force_heal_def)
    then show ?thesis by (simp add: position_heal in_domain_make_point)
  next
    case False
    show ?thesis
    proof (cases "danger_level ob > 0.5")
      case True
      with False r have "flee_high_curvature 3 (aiden s) = Inr b1" by simp
      then show ?thesis by (rule flee_three_in_domain)
    next
      case False
      with \<open>\<not> sense_needs_healing ob\<close> r have "b1 = evolve_step AIDEN_operator (aiden s)"
        by simp
      then show ?thesis
        by (simp add: position_evolve_step AIDEN_operator_def Let_def in_domain_make_point)
    qed
  qed
  ultimately show ?thesis using s1 by simp
qed

lemma clip_towards:
  assumes "lo \<le> x" "x \<le> hi" "lo \<le> y" "y \<le> hi"
  shows "clip (x + (869 * y - 869 * x) / 10000) lo hi = x + (869 * y - 869 * x) / 10000"
    and "clip (y - (869 * y - 869 * x) / 10000) lo hi = y - (869 * y - 869 * x) / 10000"
proof -
  from assms have "lo \<le> x + (869 * y - 869 * x) / 10000" "x + (869 * y - 869 * x) / 10000 \<le> hi"
    "lo \<le> y - (869 * y - 869 * x) / 10000" "y - (869 * y - 869 * x) / 10000 \<le> hi"
    by (simp_all add: field_simps)
  then show "clip (x + (869 * y - 869 * x) / 10000) lo hi = x + (869 * y - 869 * x) / 10000"
    and "clip (y - (869 * y - 869 * x) / 10000) lo hi = y - (869 * y - 869 * x) / 10000"
    by (simp_all add: clip_id)
qed

lemma coupling_exact:
  assumes "in_domain (position (aura s))" "in_domain (position (aiden s))"
  shows "\<exists>s'. apply_coupling s = Inr s' \<and>
     to_vector (position (aura s')) =
       vadd (to_vector (position (aura s)))
         (vscale (coupling_strength * 0.1)
            (vsub (to_vector (position (aiden s))) (to_vector (position (aura s))))) \<and>
     to_vector (position (aiden s')) =
       vsub (to_vector (position (aiden s)))
         (vscale (coupling_strength * 0.1)
            (vsub (to_vector (position (aiden s))) (to_vector (position (aura s)))))"
proof -
  from assms have
    "0 \<le> Lambda (position (aura s))" "Lambda (position (aura s)) \<le> 1"
    "0 \<le> Phi (position (aura s))" "Phi (position (aura s)) \<le> 1"
    "1 / 1000 \<le> Gamma (position (aura s))" "Gamma (position (aura s)) \<le> 1"
    "0 \<le> epsilon (position (aura s))" "epsilon (position (aura s)) \<le> 1"
    "0 \<le> psi (position (aura s))" "psi (position (aura s)) \<le> 1"
    "0 \<le> Lambda (position (aiden s))" "Lambda (position (aiden s)) \<le> 1"
    "0 \<le> Phi (position (aiden s))" "Phi (position (aiden s)) \<le> 1"
    "1 / 1000 \<le> Gamma (position (aiden s))" "Gamma (position (aiden s)) \<le> 1"
    "0 \<le> epsilon (position (aiden s))" "epsilon (position (aiden s)) \<le> 1"
    "0 \<le> psi (position (aiden s))" "psi (position (aiden s)) \<le> 1"
    unfolding in_domain_def by blast+
  then show ?thesis
    by (simp add: apply_coupling_def Let_def to_vector_def vadd_def vsub_def vscale_def
        from_vector_six bind_res_def make_point_fields clip_towards
        coupling_strength_def CHI_PC_def)
qed

text \<open>
  C7. Whenever \<open>coupled_step\<close> returns, the two positions it leaves are those of the state
  \<open>s1\<close> reached after observing, reacting and evolving, moved by one and the same
  difference \<open>pos_B - pos_A\<close> taken from \<open>s1\<close>: \<open>pos_A + k * (pos_B - pos_A)\<close> and
  \<open>pos_B - k * (pos_B - pos_A)\<close> with \<open>k = coupling_strength * 0.1\<close> (the clamp of the
  constructor changes nothing here), and the value returned is \<open>exp (- d)\<close> for the
  distance \<open>d\<close> of the two new positions.
\<close>

theorem coupled_step_couples_symmetrically:
  assumes "coupled_step s = Inr (sync, s')"
  shows "\<exists>s1 d. observe_react_evolve s = Inr s1 \<and>
     to_vector (position (aura s')) =
       vadd (to_vector (position (aura s1)))
         (vscale (coupling_strength * 0.1)
            (vsub (to_vector (position (aiden s1))) (to_vector (position (aura s1))))) \<and>
     to_vector (position (aiden s')) =
       vsub (to_vector (position (aiden s1)))
         (vscale (coupling_strength * 0.1)
            (vsub (to_vector (position (aiden s1))) (to_vector (position (aura s1))))) \<and>
     distance (position (aura s')) (position (aiden s')) = Inr d \<and> sync = exp (- d)"
proof -
  from assms obtain s1 where s1: "observe_react_evolve s = Inr s1"
    by (auto simp add: coupled_step_def bind_res_def split: sum.splits)
  from observe_react_evolve_in_domain [OF s1] coupling_exact [of s1]
  obtain s2 where s2: "apply_coupling s1 = Inr s2"
    and a: "to_vector (position (aura s2)) =
       vadd (to_vector (position (aura s1)))
         (vscale (coupling_strength * 0.1)
            (vsub (to_vector (position (aiden s1))) (to_vector (position (aura s1)))))"
    and b: "to_vector (position (aiden s2)) =
       vsub (to_vector (position (aiden s1)))
         (vscale (coupling_strength * 0.1)
            (vsub (to_vector (position (aiden s1))) (to_vector (position (aura s1)))))"
    by blast
  from assms s1 s2 have sy: "synchronization s2 = Inr (sync, s')"
    by (simp add: coupled_step_def bind_res_def)
  then obtain d where d: "distance (position (aura s2)) (position (aiden s2)) = Inr d"
    and sync: "sync = exp (- d)"
    and s': "s' = s2\<lparr>synchronization_history := synchronization_history s2 @ [exp (- d)]\<rparr>"
    by (auto simp add: synchronization_def bind_res_def Let_def split: sum.splits)
  from s' have "position (aura s') = position (aura s2)" "position (aiden s') = position (aiden s2)"
    by simp_all
  with s1 a b d sync show ?thesis by auto
qed

lemma high_coherence_regular:
  assumes "in_domain p" "4 / 5 \<le> Lambda p" "4 / 5 \<le> Phi p"
  shows "\<not> metric_singular p"
proof -
  have "(4 / 5) * (4 / 5) \<le> Lambda p * Phi p"
    using assms(2,3) by (intro mult_mono) simp_all
  then have "1 < lambda_phi_coupling * Lambda p * Phi p"
    by (simp add: lambda_phi_coupling_def LAMBDA_PHI_def)
  then have "1 * 1 < (lambda_phi_coupling * Lambda p * Phi p) * (lambda_phi_coupling * Lambda p * Phi p)"
    by (intro mult_strict_mono) simp_all
  moreover have "0 \<le> (epsilon_lambda_coupling * epsilon p) * (epsilon_lambda_coupling * epsilon p)"
    by simp
  ultimately show ?thesis
    unfolding metric_singular_def power2_eq_square by linarith
qed

lemma index_below_six: "i < (6::nat) \<Longrightarrow> i = 0 \<or> i = 1 \<or> i = 2 \<or> i = 3 \<or> i = 4 \<or> i = 5"
  by arith

lemma perturbed_point:
  assumes "i < 6" "\<bar>h\<bar> \<le> 1 / 100" "in_domain p" "L + 1 / 100 \<le> Lambda p" "L + 1 / 100 \<le> Phi p"
    "L \<le> 1"
  shows "\<exists>q. from_vector ((to_vector p)[i := to_vector p ! i + h]) = Inr q \<and>
           in_domain q \<and> L \<le> Lambda q \<and> L \<le> Phi q"
proof -
  let ?v = "(to_vector p)[i := to_vector p ! i + h]"
  let ?q = "make_point (?v ! 0) (?v ! 1) (?v ! 2) (?v ! 3) (?v ! 4) (?v ! 5)"
  have q: "from_vector ?v = Inr ?q"
    by (simp add: from_vector_def to_vector_length)
  have "L \<le> Lambda ?q \<and> L \<le> Phi ?q"
    using index_below_six [OF assms(1)] assms(2-)
    by (auto simp add: to_vector_def make_point_fields clip_def in_domain_def)
  with q in_domain_make_point show ?thesis by blast
qed

lemma compute_ok:
  assumes "in_domain p" "4 / 5 \<le> Lambda p" "4 / 5 \<le> Phi p"
  shows "\<exists>gamma. compute p = Inr gamma"
  using g_inverse_regular [OF assms(1) high_coherence_regular [OF assms]] compute_total
  by blast

lemma christoffel_derivative_ok:
  assumes "in_domain p" "81 / 100 \<le> Lambda p" "81 / 100 \<le> Phi p" "mu < 6"
  shows "\<exists>d. christoffel_derivative (to_vector p) mu = Inr d"
proof -
  obtain qp where qp: "from_vector ((to_vector p)[mu := to_vector p ! mu + riemann_epsilon]) = Inr qp"
    "in_domain qp" "4 / 5 \<le> Lambda qp" "4 / 5 \<le> Phi qp"
    using perturbed_point [OF assms(4) _ assms(1), of riemann_epsilon "4 / 5"] assms(2,3)
    by (auto simp add: riemann_epsilon_def)
  obtain qm where qm: "from_vector ((to_vector p)[mu := to_vector p ! mu + - riemann_epsilon]) = Inr qm"
    "in_domain qm" "4 / 5 \<le> Lambda qm" "4 / 5 \<le> Phi qm"
    using perturbed_point [OF assms(4) _ assms(1), of "- riemann_epsilon" "4 / 5"] assms(2,3)
    by (auto simp add: riemann_epsilon_def)
  obtain gp gm where "compute qp = Inr gp" "compute qm = Inr gm"
    using compute_ok [OF qp(2,3,4)] compute_ok [OF qm(2,3,4)] by blast
  with qp(1) qm(1) show ?thesis
    by (simp add: christoffel_derivative_def Let_def bind_res_def)
qed

lemma scalar_curvature_ok:
  assumes "in_domain p" "81 / 100 \<le> Lambda p" "81 / 100 \<le> Phi p"
  shows "\<exists>r. scalar_curvature p = Inr r"
proof -
  have l: "4 / 5 \<le> Lambda p" "4 / 5 \<le> Phi p" using assms(2,3) by simp_all
  obtain gamma where c: "compute p = Inr gamma"
    using compute_ok [OF assms(1) l] by blast
  have "\<exists>dg. sequence_res (map (christoffel_derivative (to_vector p)) [0..<6]) = Inr dg"
    by (rule sequence_res_total) (simp add: christoffel_derivative_ok [OF assms])
  then obtain dg where dg: "sequence_res (map (christoffel_derivative (to_vector p)) [0..<6]) = Inr dg"
    by blast
  obtain gi where gi: "g_inverse p = Inr gi"
    using g_inverse_regular [OF assms(1) high_coherence_regular [OF assms(1) l]] by blast
  show ?thesis
    by (simp add: scalar_curvature_def ricci_tensor_def riemann_tensor_def c dg gi bind_res_def)
qed

lemma curvature_gradient_ok:
  assumes "in_domain p" "82 / 100 \<le> Lambda p" "82 / 100 \<le> Phi p"
  shows "\<exists>g. curvature_gradient p = Inr g"
proof -
  have l: "81 / 100 \<le> Lambda p" "81 / 100 \<le> Phi p" using assms(2,3) by simp_all
  obtain r0 where r0: "scalar_curvature p = Inr r0"
    using scalar_curvature_ok [OF assms(1) l] by blast
  have "\<exists>g. sequence_res (map (\<lambda>i.
          bind_res (from_vector ((to_vector p)[i := to_vector p ! i + riemann_epsilon])) (\<lambda>p_plus.
          bind_res (scalar_curvature p_plus) (\<lambda>R_plus.
            Inr ((R_plus - r0) / riemann_epsilon)))) [0..<6]) = Inr g"
  proof (rule sequence_res_total)
    fix i assume "i \<in> set [0..<6]"
    then have i: "i < 6" by simp
    obtain q where q: "from_vector ((to_vector p)[i := to_vector p ! i + riemann_epsilon]) = Inr q"
      "in_domain q" "81 / 100 \<le> Lambda q" "81 / 100 \<le> Phi q"
      using perturbed_point [OF i _ assms(1), of riemann_epsilon "81 / 100"] assms(2,3)
      by (auto simp add: riemann_epsilon_def)
    obtain r where "scalar_curvature q = Inr r"
      using scalar_curvature_ok [OF q(2,3,4)] by blast
    with q(1) show "\<exists>y. bind_res (from_vector ((to_vector p)[i := to_vector p ! i + riemann_epsilon]))
        (\<lambda>p_plus. bind_res (scalar_curvature p_plus) (\<lambda>R_plus.
            Inr ((R_plus - r0) / riemann_epsilon))) = Inr y"
      by (simp add: bind_res_def)
  qed
  then show ?thesis
    by (simp add: curvature_gradient_def Let_def r0 bind_res_def)
qed

lemma sense_curvature_ok:
  assumes "in_domain (position a)" "82 / 100 \<le> Lambda (position a)" "82 / 100 \<le> Phi (position a)"
  shows "\<exists>ob. sense_curvature a = Inr (ob, a\<lparr>state := SENSING\<rparr>) \<and>
           sense_needs_healing ob = needs_healing (position a)"
proof -
  have l: "81 / 100 \<le> Lambda (position a)" "81 / 100 \<le> Phi (position a)"
    using assms(2,3) by simp_all
  obtain r where r: "scalar_curvature (position a) = Inr r"
    using scalar_curvature_ok [OF assms(1) l] by blast
  obtain g where g: "curvature_gradient (position a) = Inr g"
    using curvature_gradient_ok [OF assms] by blast
  show ?thesis
    by (simp add: sense_curvature_def Let_def r g decoherence_field_def coherence_potential_def
        bind_res_def)
qed

lemma coupled_step_ok:
  assumes "in_domain (position (aura s))" "82 / 100 \<le> Lambda (position (aura s))"
    "82 / 100 \<le> Phi (position (aura s))" "needs_healing (position (aura s))"
  shows "\<exists>sync s'. coupled_step s = Inr (sync, s')"
proof -
  obtain ob where ob: "sense_curvature (aura s) = Inr (ob, (aura s)\<lparr>state := SENSING\<rparr>)"
    "sense_needs_healing ob = needs_healing (position (aura s))"
    using sense_curvature_ok [OF assms(1,2,3)] by blast
  let ?s1 = "s\<lparr>aura := evolve_step AURA_operator ((aura s)\<lparr>state := SENSING\<rparr>),
               aiden := force_heal (aiden s)\<rparr>"
  have s1: "observe_react_evolve s = Inr ?s1"
    using ob assms(4) by (simp add: observe_react_evolve_def bind_res_def)
  from observe_react_evolve_in_domain [OF s1] coupling_exact [of ?s1]
  obtain s2 where s2: "apply_coupling ?s1 = Inr s2" by blast
  obtain d where "distance (position (aura s2)) (position (aiden s2)) = Inr d"
    using distance_total by blast
  then have "\<exists>r. synchronization s2 = Inr r"
    by (simp add: synchronization_def bind_res_def Let_def)
  with s1 s2 show ?thesis
    by (auto simp add: coupled_step_def bind_res_def)
qed

theorem coupled_step_couples_symmetrically_witness:
  "\<exists>sync s'.
     coupled_step (init_system\<lparr>aura :=
         init_agent (make_point (9 / 10) (9 / 10) (1 / 2) 0 (1 / 2) (9 / 10))\<rparr>) = Inr (sync, s') \<and>
     (\<exists>s1 d. observe_react_evolve (init_system\<lparr>aura :=
         init_agent (make_point (9 / 10) (9 / 10) (1 / 2) 0 (1 / 2) (9 / 10))\<rparr>) = Inr s1 \<and>
       to_vector (position (aura s')) =
         vadd (to_vector (position (aura s1)))
           (vscale (coupling_strength * 0.1)
              (vsub (to_vector (position (aiden s1))) (to_vector (position (aura s1))))) \<and>
       to_vector (position (aiden s')) =
         vsub (to_vector (position (aiden s1)))
           (vscale (coupling_strength * 0.1)
              (vsub (to_vector (position (aiden s1))) (to_vector (position (aura s1))))) \<and>
       distance (position (aura s')) (position (aiden s')) = Inr d \<and> sync = exp (- d))"
proof -
  let ?s = "init_system\<lparr>aura :=
         init_agent (make_point (9 / 10) (9 / 10) (1 / 2) 0 (1 / 2) (9 / 10))\<rparr>"
  have p: "position (aura ?s) = make_point (9 / 10) (9 / 10) (1 / 2) 0 (1 / 2) (9 / 10)"
    by (simp add: init_agent_def)
  have d: "in_domain (position (aura ?s))"
    unfolding p by (rule in_domain_make_point)
  have b: "82 / 100 \<le> Lambda (position (aura ?s))"
    "82 / 100 \<le> Phi (position (aura ?s))" "needs_healing (position (aura ?s))"
    unfolding p by (simp_all add: make_point_fields clip_def needs_healing_def)
  from coupled_step_ok [OF d b] obtain sync s' where c: "coupled_step ?s = Inr (sync, s')"
    by blast
  from coupled_step_couples_symmetrically [OF c] c show ?thesis
    by blast
qed

subsection \<open>The transport distance\<close>

lemma map_nth_upt: "map f xs = map (\<lambda>i. f (xs ! i)) [0..<length xs]"
  by (rule nth_equalityI) simp_all

lemma cost_matrix_table:
  "cost_matrix dsq sp tp = table (length sp) (length tp) (\<lambda>i j. dsq (sp ! i) (tp ! j))"
  unfolding cost_matrix_def table_def
  by (subst map_nth_upt [of _ sp], rule map_cong [OF refl], subst map_nth_upt [of _ tp]) simp

lemma map_map_table: "map (map g) (table n m f) = table n m (\<lambda>i j. g (f i j))"
  by (simp add: table_def comp_def)

lemma matvec_table:
  "length v = m \<Longrightarrow>
     matvec ops m (table n m f) v = Inr (map (\<lambda>i. f_dot ops (map (f i) [0..<m]) v) [0..<n])"
  by (simp add: matvec_def table_def comp_def)

lemma matvec_bad: "length v \<noteq> m \<Longrightarrow> matvec ops m k v = Inl ValueError"
  by (simp add: matvec_def)

lemma mat_T_table: "mat_T m (table n m f) = table m n (\<lambda>j i. f i j)"
  by (simp add: mat_T_def table_def comp_def)

lemma diag_table:
  "diag ops u = table (length u) (length u) (\<lambda>i j. if i = j then u ! i else f_zero ops)"
  by (simp add: diag_def table_def)

lemma matmul_table:
  "matmul ops m (table n q f) (table q m g) =
     Inr (table n m (\<lambda>i j. f_dot ops (map (f i) [0..<q]) (map (\<lambda>l. g l j) [0..<q])))"
  by (simp add: matmul_def table_def comp_def)

lemma broadcast_length:
  "length a = n \<or> length a = 1 \<Longrightarrow> length (broadcast n a) = n"
  by (auto simp add: broadcast_def)

lemma vdiv_broadcast:
  assumes "length b = n" "length a = n \<or> length a = 1"
  shows "vdiv ops a b = Inr (map (\<lambda>i. f_div ops (broadcast n a ! i) (b ! i)) [0..<n])"
proof (cases "length a = length b")
  case True
  have "map2 (f_div ops) a b = map (\<lambda>i. f_div ops (broadcast n a ! i) (b ! i)) [0..<n]"
    using True assms(1) by (intro nth_equalityI) (auto simp add: broadcast_def)
  with True show ?thesis by (simp add: vdiv_def)
next
  case False
  with assms have a: "length a = 1" by auto
  have "map (\<lambda>y. f_div ops (a ! 0) y) b = map (\<lambda>i. f_div ops (broadcast n a ! i) (b ! i)) [0..<n]"
    using a assms(1) by (intro nth_equalityI) (auto simp add: broadcast_def)
  with False a show ?thesis by (simp add: vdiv_def)
qed

lemma vdiv_broadcast_map:
  assumes "length a = n \<or> length a = 1"
  shows "vdiv ops a (map g [0..<n]) = Inr (map (\<lambda>i. f_div ops (broadcast n a ! i) (g i)) [0..<n])"
proof -
  have "map (\<lambda>i. f_div ops (broadcast n a ! i) (map g [0..<n] ! i)) [0..<n] =
        map (\<lambda>i. f_div ops (broadcast n a ! i) (g i)) [0..<n]"
    by (rule map_cong) simp_all
  then show ?thesis
    using vdiv_broadcast [of "map g [0..<n]" n a ops] assms by simp
qed

lemma vdiv_length:
  "vdiv ops a b = Inr c \<Longrightarrow> length a \<noteq> length b \<Longrightarrow> length a \<noteq> 1 \<Longrightarrow>
     length b = 1 \<and> length c = length a"
  by (auto simp add: vdiv_def split: if_splits)

lemma sinkhorn_step_spec:
  assumes "length (snd uv) = m" "length a = n \<or> length a = 1" "length b = m \<or> length b = 1"
  shows "sinkhorn_step ops n m (table n m K) a b uv =
           Inr (spec_scaling ops n m K (broadcast n a) (broadcast m b) uv)"
  unfolding sinkhorn_step_def spec_scaling_def
  by (simp add: matvec_table [OF assms(1)] bind_res_def mat_T_table matvec_table
      vdiv_broadcast_map [OF assms(2)] vdiv_broadcast_map [OF assms(3)] Let_def)

lemma spec_scaling_length:
  "length (fst (spec_scaling ops n m K a b uv)) = n \<and> length (snd (spec_scaling ops n m K a b uv)) = m"
  by (simp add: spec_scaling_def Let_def)

lemma sinkhorn_loop_spec:
  assumes "length a = n \<or> length a = 1" "length b = m \<or> length b = 1"
  shows "length (snd uv) = m \<Longrightarrow>
     sinkhorn_loop k ops n m (table n m K) a b uv =
       Inr ((spec_scaling ops n m K (broadcast n a) (broadcast m b) ^^ k) uv)"
proof (induction k arbitrary: uv)
  case 0
  show ?case by simp
next
  case (Suc k)
  have "length (snd (spec_scaling ops n m K (broadcast n a) (broadcast m b) uv)) = m"
    by (simp add: spec_scaling_length)
  from Suc.IH [OF this] show ?case
    by (simp add: sinkhorn_step_spec [OF Suc.prems assms] bind_res_def funpow_swap1)
qed

lemma sinkhorn_step_bad_source:
  assumes "length (snd uv) = m" "length a \<noteq> n" "length a \<noteq> 1"
  shows "sinkhorn_step ops n m (table n m K) a b uv = Inl ValueError"
proof -
  let ?kv = "map (\<lambda>i. f_dot ops (map (K i) [0..<m]) (snd uv)) [0..<n]"
  have kv: "matvec ops m (table n m K) (snd uv) = Inr ?kv"
    by (rule matvec_table [OF assms(1)])
  show ?thesis
  proof (cases "vdiv ops a ?kv")
    case (Inl e)
    then have "e = ValueError" by (auto simp add: vdiv_def split: if_splits)
    with Inl show ?thesis by (simp add: sinkhorn_step_def kv bind_res_def)
  next
    case (Inr u)
    from vdiv_length [OF Inr] assms(2,3) have "length u = length a" by simp
    with assms(2) have "matvec ops n (mat_T m (table n m K)) u = Inl ValueError"
      by (simp add: matvec_bad)
    with Inr show ?thesis by (simp add: sinkhorn_step_def kv bind_res_def)
  qed
qed

lemma sinkhorn_two_steps_bad_target:
  assumes "length (snd uv) = m" "length a = n \<or> length a = 1" "length b \<noteq> m" "length b \<noteq> 1"
  shows "sinkhorn_loop (Suc (Suc k)) ops n m (table n m K) a b uv = Inl ValueError"
proof -
  let ?kv = "map (\<lambda>i. f_dot ops (map (K i) [0..<m]) (snd uv)) [0..<n]"
  let ?u = "map (\<lambda>i. f_div ops (broadcast n a ! i) (f_dot ops (map (K i) [0..<m]) (snd uv)))
              [0..<n]"
  let ?ktu = "map (\<lambda>j. f_dot ops (map (\<lambda>i. K i j) [0..<n]) ?u) [0..<m]"
  have kv: "matvec ops m (table n m K) (snd uv) = Inr ?kv"
    by (rule matvec_table [OF assms(1)])
  have u: "vdiv ops a ?kv = Inr ?u"
    by (rule vdiv_broadcast_map [OF assms(2)])
  have ktu: "matvec ops n (mat_T m (table n m K)) ?u = Inr ?ktu"
    unfolding mat_T_table by (rule matvec_table) simp
  show ?thesis
  proof (cases "vdiv ops b ?ktu")
    case (Inl e)
    then have "e = ValueError" by (auto simp add: vdiv_def split: if_splits)
    with Inl show ?thesis
      by (simp add: sinkhorn_step_def kv u ktu bind_res_def del: map_map)
  next
    case (Inr v)
    from vdiv_length [OF Inr] assms(3,4) have "length v = length b" by simp
    with assms(3) have "matvec ops m (table n m K) v = Inl ValueError"
      by (simp add: matvec_bad)
    then have "sinkhorn_step ops n m (table n m K) a b (?u, v) = Inl ValueError"
      by (simp add: sinkhorn_step_def bind_res_def)
    with Inr show ?thesis
      by (simp add: sinkhorn_step_def kv u ktu bind_res_def del: map_map)
  qed
qed


lemma scaling_funpow_length:
  "length (fst ((spec_scaling ops n m K a b ^^ k) (replicate n x, replicate m y))) = n"
  "length (snd ((spec_scaling ops n m K a b ^^ k) (replicate n x, replicate m y))) = m"
  by (cases k; simp add: spec_scaling_length)+

lemma sinkhorn_loop_bad_source:
  assumes "length (snd uv) = m" "length a \<noteq> n" "length a \<noteq> 1"
  shows "sinkhorn_loop (Suc k) ops n m (table n m K) a b uv = Inl ValueError"
  by (simp add: sinkhorn_step_bad_source [OF assms] bind_res_def)

lemma map2_table:
  "map2 (map2 h) (table n m f) (table n m g) = table n m (\<lambda>i j. h (f i j) (g i j))"
  by (simp add: table_def zip_map_map zip_same_conv_map comp_def)

lemma plan_table:
  assumes "length u = n" "length v = m"
  shows "bind_res (matmul ops m (diag ops u) (table n m K)) (\<lambda>dk. matmul ops m dk (diag ops v)) =
           Inr (table n m (spec_plan ops n m K u v))"
proof -
  have d: "diag ops u = table n n (\<lambda>i j. if i = j then u ! i else f_zero ops)"
    "diag ops v = table m m (\<lambda>i j. if i = j then v ! i else f_zero ops)"
    using assms by (simp_all add: diag_table)
  show ?thesis
    unfolding d matmul_table bind_res_def sum.case spec_plan_def ..
qed

lemma w2_distance_spec:
  assumes "length sw = length sp \<or> length sw = 1" "length tw = length tp \<or> length tw = 1"
  shows "w2_distance ops dsq sp sw tp tw =
           Inr (spec_w2 ops (\<lambda>i j. dsq (sp ! i) (tp ! j)) (length sp) (length tp)
                  (broadcast (length sp) sw) (broadcast (length tp) tw))"
proof -
  let ?n = "length sp" and ?m = "length tp"
  let ?C = "\<lambda>i j. dsq (sp ! i) (tp ! j)"
  let ?K = "spec_kernel ops ?C"
  let ?uv = "(spec_scaling ops ?n ?m ?K (broadcast ?n sw) (broadcast ?m tw) ^^ 100)
               (replicate ?n (f_one ops), replicate ?m (f_one ops))"
  have K: "map (map (\<lambda>c. f_exp ops (f_div ops (f_neg ops c) (f_tenth ops))))
             (cost_matrix dsq sp tp) = table ?n ?m ?K"
    by (simp add: cost_matrix_table map_map_table spec_kernel_def [abs_def])
  have loop: "sinkhorn_loop 100 ops ?n ?m (table ?n ?m ?K) sw tw
                (replicate ?n (f_one ops), replicate ?m (f_one ops)) = Inr ?uv"
    by (rule sinkhorn_loop_spec [OF assms]) simp
  have len: "length (fst ?uv) = ?n" "length (snd ?uv) = ?m"
    by (rule scaling_funpow_length)+
  have P: "bind_res (matmul ops ?m (diag ops (fst ?uv)) (table ?n ?m ?K))
             (\<lambda>dk. matmul ops ?m dk (diag ops (snd ?uv))) =
      Inr (table ?n ?m (spec_plan ops ?n ?m ?K (fst ?uv) (snd ?uv)))"
    by (rule plan_table [OF len])
  have assoc: "\<And>r f g. bind_res r (\<lambda>x. bind_res (f x) g) = bind_res (bind_res r f) g"
    by (simp add: bind_res_def split: sum.splits)
  have tot: "concat (map2 (map2 (f_mul ops))
                 (table ?n ?m (spec_plan ops ?n ?m ?K (fst ?uv) (snd ?uv))) (cost_matrix dsq sp tp)) =
      concat (map (\<lambda>i. map (\<lambda>j. f_mul ops (spec_plan ops ?n ?m ?K (fst ?uv) (snd ?uv) i j) (?C i j))
                     [0..<?m]) [0..<?n])"
    unfolding cost_matrix_table map2_table by (simp add: table_def)
  show ?thesis
    unfolding w2_distance_def Let_def K loop
    by (simp only: sum.case split_beta assoc P bind_res_def [of "Inr _"] tot spec_w2_def Let_def)
qed

lemma w2_distance_bad:
  assumes "\<not> ((length sw = length sp \<or> length sw = 1) \<and> (length tw = length tp \<or> length tw = 1))"
  shows "w2_distance ops dsq sp sw tp tw = Inl ValueError"
proof -
  let ?n = "length sp" and ?m = "length tp"
  let ?C = "\<lambda>i j. dsq (sp ! i) (tp ! j)"
  let ?K = "spec_kernel ops ?C"
  let ?init = "(replicate ?n (f_one ops), replicate ?m (f_one ops))"
  have K: "map (map (\<lambda>c. f_exp ops (f_div ops (f_neg ops c) (f_tenth ops))))
             (cost_matrix dsq sp tp) = table ?n ?m ?K"
    by (simp add: cost_matrix_table map_map_table spec_kernel_def [abs_def])
  have c: "(100 :: nat) = Suc (Suc 98)" and c': "(100 :: nat) = Suc 99" by simp_all
  have "sinkhorn_loop 100 ops ?n ?m (table ?n ?m ?K) sw tw ?init = Inl ValueError"
  proof (cases "length sw = length sp \<or> length sw = 1")
    case True
    with assms have "length tw \<noteq> ?m" "length tw \<noteq> 1" by auto
    from sinkhorn_two_steps_bad_target [where uv = ?init and k = 98, OF _ True this]
    show ?thesis unfolding c by simp
  next
    case False
    then have "length sw \<noteq> ?n" "length sw \<noteq> 1" by auto
    from sinkhorn_loop_bad_source [where uv = ?init and m = ?m and k = 99, OF _ this]
    show ?thesis unfolding c' by simp
  qed
  then show ?thesis
    unfolding w2_distance_def Let_def K by (simp add: bind_res_def)
qed

text \<open>
  C8. For all point sets and all one-dimensional weight arrays, and whatever the float
  operations compute: \<open>w2_distance\<close> takes the matrix \<open>C\<close> of the squared distances of the
  pairs, the kernel \<open>K = exp (- C / 0.1)\<close>, the vectors \<open>u\<close> and \<open>v\<close> that exactly 100 rounds
  of the alternating scaling give from the all-ones vectors (nothing ends the loop earlier),
  the plan \<open>P = diag u \<cdot> K \<cdot> diag v\<close>, and returns \<open>sqrt (\<Sum> P \<circ> C)\<close>. This is so when each
  weight array has one entry per point, or a single entry, which numpy then uses for every
  point; any other number of weights raises ValueError.
\<close>

theorem w2_distance_is_fixed_sinkhorn:
  "w2_distance ops dsq sp sw tp tw =
     (if (length sw = length sp \<or> length sw = 1) \<and> (length tw = length tp \<or> length tw = 1)
      then Inr (spec_w2 ops (\<lambda>i j. dsq (sp ! i) (tp ! j)) (length sp) (length tp)
                  (broadcast (length sp) sw) (broadcast (length tp) tw))
      else Inl ValueError)"
  using w2_distance_spec [of sw sp tw tp ops dsq] w2_distance_bad [of sw sp tw tp ops dsq]
  by (cases "(length sw = length sp \<or> length sw = 1) \<and> (length tw = length tp \<or> length tw = 1)")
    simp_all


lemma distance_squared_cost_entry: "distance_squared s t = Inr (cost_entry s t)"
  using distance_squared_total [of s t] by (auto simp add: cost_entry_def)

lemma funpow_fixed: "f x = x \<Longrightarrow> (f ^^ n) x = x"
  by (induction n) simp_all

text \<open>
  Three runs in exact arithmetic: one source and one target point at squared distance
  \<open>1 / 4\<close>, where the scaling is stationary after its first round and the result is \<open>1 / 2\<close>;
  three weights for one point; one weight for two points.
\<close>

theorem w2_distance_is_fixed_sinkhorn_witness:
  "w2_distance real_ops cost_entry
     [make_point (1 / 2) (1 / 2) (1 / 10) 0 (1 / 2) (2 / 5)] [1]
     [make_point (1 / 2) (1 / 2) (1 / 10) 0 (1 / 2) (9 / 10)] [1] = Inr (1 / 2) \<and>
   w2_distance real_ops cost_entry
     [make_point (1 / 2) (1 / 2) (1 / 10) 0 (1 / 2) (2 / 5)] [1, 1, 1]
     [make_point (1 / 2) (1 / 2) (1 / 10) 0 (1 / 2) (9 / 10)] [1] = Inl ValueError \<and>
   w2_distance real_ops cost_entry
     [make_point (1 / 2) (1 / 2) (1 / 10) 0 (1 / 2) (2 / 5),
      make_point (1 / 2) (1 / 2) (1 / 10) 0 (1 / 2) (2 / 5)] [1 / 2]
     [make_point (1 / 2) (1 / 2) (1 / 10) 0 (1 / 2) (9 / 10)] [1] =
   w2_distance real_ops cost_entry
     [make_point (1 / 2) (1 / 2) (1 / 10) 0 (1 / 2) (2 / 5),
      make_point (1 / 2) (1 / 2) (1 / 10) 0 (1 / 2) (2 / 5)] [1 / 2, 1 / 2]
     [make_point (1 / 2) (1 / 2) (1 / 10) 0 (1 / 2) (9 / 10)] [1]"
proof -
  let ?p = "make_point (1 / 2) (1 / 2) (1 / 10) 0 (1 / 2) (2 / 5)"
  let ?q = "make_point (1 / 2) (1 / 2) (1 / 10) 0 (1 / 2) (9 / 10)"
  let ?C = "\<lambda>i j. cost_entry ([?p] ! i) ([?q] ! j)"
  let ?f = "spec_scaling real_ops 1 1 (spec_kernel real_ops ?C) [1] [1]"
  have c: "cost_entry ?p ?q = 1 / 4"
    by (simp add: cost_entry_def distance_squared_def to_vector_def vsub_def vadd_def
        from_vector_six bind_res_def metric_g_def eye_def mset2_def Let_def upt_rec
        dot_def vecmat_def make_point_fields clip_def)
  have k: "spec_kernel real_ops ?C 0 0 = exp (- (5 / 2))"
    by (simp add: spec_kernel_def real_ops_def c)
  have ops: "f_zero real_ops = 0" "f_one real_ops = 1" "f_div real_ops = (/)"
    "f_mul real_ops = (*)" "f_sqrt real_ops = sqrt" "f_dot real_ops = dot"
    "f_sum real_ops = sum_list"
    by (simp_all add: real_ops_def)
  have s1: "?f ([1], [1]) = ([1 / exp (- (5 / 2))], [1])"
    by (simp add: spec_scaling_def Let_def k ops dot_def)
  have s2: "?f ([1 / exp (- (5 / 2))], [1]) = ([1 / exp (- (5 / 2))], [1])"
    by (simp add: spec_scaling_def Let_def k ops dot_def)
  have "(?f ^^ 100) ([1], [1]) = (?f ^^ 99) (?f ([1], [1]))"
    by (simp add: numeral_eq_Suc funpow_swap1)
  also have "\<dots> = ([1 / exp (- (5 / 2))], [1])"
    unfolding s1 using s2 by (rule funpow_fixed)
  finally have uv: "(?f ^^ 100) ([1], [1]) = ([1 / exp (- (5 / 2))], [1])" .
  have r: "sqrt (1 / 4) = 1 / 2"
    by (simp add: real_sqrt_divide)
  have b: "broadcast (Suc 0) [1 :: real] = [1]"
    "broadcast (Suc (Suc 0)) [1 / 2 :: real] = [1 / 2, 1 / 2]"
    "broadcast (Suc (Suc 0)) [1 / 2, 1 / 2 :: real] = [1 / 2, 1 / 2]"
    by (simp_all add: broadcast_def)
  have rep: "replicate 1 (1 :: real) = [1]" and u1: "[0..<1] = [0]"
    by simp_all
  have sw: "spec_w2 real_ops ?C 1 1 [1] [1] = 1 / 2"
    unfolding spec_w2_def Let_def ops rep uv u1
    by (simp add: spec_plan_def k c r ops dot_def)
  have A: "w2_distance real_ops cost_entry [?p] [1] [?q] [1] = Inr (1 / 2)"
    using w2_distance_is_fixed_sinkhorn [of real_ops cost_entry "[?p]" "[1]" "[?q]" "[1]"]
    by (simp add: b sw [unfolded One_nat_def])
  have B: "w2_distance real_ops cost_entry [?p] [1, 1, 1] [?q] [1] = Inl ValueError"
    using w2_distance_is_fixed_sinkhorn [of real_ops cost_entry "[?p]" "[1, 1, 1]" "[?q]" "[1]"]
    by simp
  have C: "w2_distance real_ops cost_entry [?p, ?p] [1 / 2] [?q] [1] =
           w2_distance real_ops cost_entry [?p, ?p] [1 / 2, 1 / 2] [?q] [1]"
    using w2_distance_is_fixed_sinkhorn [of real_ops cost_entry "[?p, ?p]" "[1 / 2]" "[?q]" "[1]"]
      w2_distance_is_fixed_sinkhorn [of real_ops cost_entry "[?p, ?p]" "[1 / 2, 1 / 2]" "[?q]" "[1]"]
    by (simp add: b)
  show ?thesis
    using A B C by simp
qed

end
